theory Spec2Isabelle
  imports Complex_Main "HOL-Library.Multiset" "HOL-Library.Sublist"
begin

section \<open>Silly Sums (game.js): the game logic as HOL functions\<close>

text \<open>
  The script keeps its state in top-level \<open>let\<close> variables, in \<open>localStorage\<close> and in
  the page. Each function of the script becomes a function from the state before the call
  to the state after it. Counters are \<open>int\<close>. A number that comes out of a division is a
  \<open>jsnum\<close>: an exact rational, or \<open>NaN\<close> or an infinity where the divisor was zero (the
  rounding of IEEE doubles is not part of the model). A function of the leaderboard that
  throws returns \<open>Inl\<close>; \<open>generateOptions\<close> returns \<open>None\<close> when its loop never ends; a
  handler ends as an \<open>ending\<close>, which carries the variables as it left them also when it
  throws or never returns. Sounds, the confetti animation, style
  classes and the start page are left out; of the page only what a later call reads or an
  achievement, statistic or option shows is kept.
\<close>

subsection \<open>Texts: numbers and string literals as JSON.stringify writes them\<close>

datatype js_error = SyntaxError

definition dq :: char where
  "dq = CHR 0x22"

definition bs :: char where
  "bs = CHR 0x5C"

definition digit_char :: "nat \<Rightarrow> char" where
  "digit_char d = ''0123456789abcdef'' ! d"

fun show_nat :: "nat \<Rightarrow> string" where
  "show_nat n = (if n < 10 then [digit_char n] else show_nat (n div 10) @ [digit_char (n mod 10)])"

declare show_nat.simps [simp del]

text \<open>\<open>String(i)\<close> for an integer \<open>i\<close>: decimal digits, a minus sign first when negative.\<close>

definition Number_toString :: "int \<Rightarrow> string" where
  "Number_toString i = (if i < 0 then CHR ''-'' # show_nat (nat (- i)) else show_nat (nat i))"

text \<open>
  A string literal of JSON.stringify: the quotation mark and the backslash are escaped, the
  control characters below U+0020 are written \<open>\b \t \n \f \r\<close> or \<open>\u00xx\<close>, every other
  character stands for itself.
\<close>

definition quote_char :: "char \<Rightarrow> string" where
  "quote_char c =
     (if c = dq then [bs, dq]
      else if c = bs then [bs, bs]
      else if c = CHR 0x08 then [bs, CHR ''b'']
      else if c = CHR 0x0C then [bs, CHR ''f'']
      else if c = CHR 0x0A then [bs, CHR ''n'']
      else if c = CHR 0x0D then [bs, CHR ''r'']
      else if c = CHR 0x09 then [bs, CHR ''t'']
      else if (of_char c :: nat) < 32
        then [bs, CHR ''u'', CHR ''0'', CHR ''0'',
              digit_char (of_char c div 16), digit_char (of_char c mod 16)]
      else [c])"

definition JSON_quote :: "string \<Rightarrow> string" where
  "JSON_quote s = dq # concat (map quote_char s) @ [dq]"

subsection \<open>Reading the same texts back\<close>

definition is_digit :: "char \<Rightarrow> bool" where
  "is_digit c = (48 \<le> (of_char c :: nat) \<and> (of_char c :: nat) \<le> 57)"

definition digit_val :: "char \<Rightarrow> nat" where
  "digit_val c = of_char c - 48"

fun read_digits :: "nat \<Rightarrow> string \<Rightarrow> nat \<times> string" where
  "read_digits acc [] = (acc, [])"
| "read_digits acc (c # cs) =
     (if is_digit c then read_digits (acc * 10 + digit_val c) cs else (acc, c # cs))"

text \<open>Whether a text does not go on with a digit.\<close>

definition no_digit_ahead :: "string \<Rightarrow> bool" where
  "no_digit_ahead rest = (case rest of [] \<Rightarrow> True | c # _ \<Rightarrow> \<not> is_digit c)"

text \<open>JSON's integer part: a single \<open>0\<close>, or digits that do not start with \<open>0\<close>.\<close>

definition read_nat :: "string \<Rightarrow> (nat \<times> string) option" where
  "read_nat cs =
     (case cs of
        [] \<Rightarrow> None
      | c # rest \<Rightarrow>
          if \<not> is_digit c then None
          else if c = CHR ''0''
            then (case rest of
                    [] \<Rightarrow> Some (0, rest)
                  | d # _ \<Rightarrow> if is_digit d then None else Some (0, rest))
          else Some (read_digits 0 cs))"

definition read_int :: "string \<Rightarrow> (int \<times> string) option" where
  "read_int cs =
     (case cs of
        [] \<Rightarrow> None
      | c # rest \<Rightarrow>
          if c = CHR ''-''
            then (case read_nat rest of None \<Rightarrow> None | Some (n, r) \<Rightarrow> Some (- int n, r))
          else (case read_nat cs of None \<Rightarrow> None | Some (n, r) \<Rightarrow> Some (int n, r)))"

definition hex_val :: "char \<Rightarrow> nat option" where
  "hex_val c =
     (let n = (of_char c :: nat) in
      if 48 \<le> n \<and> n \<le> 57 then Some (n - 48)
      else if 97 \<le> n \<and> n \<le> 102 then Some (n - 87)
      else if 65 \<le> n \<and> n \<le> 70 then Some (n - 55)
      else None)"

definition hex4 :: "char \<Rightarrow> char \<Rightarrow> char \<Rightarrow> char \<Rightarrow> nat option" where
  "hex4 a b c d =
     (case (hex_val a, hex_val b, hex_val c, hex_val d) of
        (Some w, Some x, Some y, Some z) \<Rightarrow> Some (((w * 16 + x) * 16 + y) * 16 + z)
      | _ \<Rightarrow> None)"

definition unescape :: "char \<Rightarrow> char option" where
  "unescape e =
     (if e = dq then Some dq
      else if e = bs then Some bs
      else if e = CHR ''/'' then Some CHR ''/''
      else if e = CHR ''b'' then Some (CHR 0x08)
      else if e = CHR ''f'' then Some (CHR 0x0C)
      else if e = CHR ''n'' then Some (CHR 0x0A)
      else if e = CHR ''r'' then Some (CHR 0x0D)
      else if e = CHR ''t'' then Some (CHR 0x09)
      else None)"

definition prepend :: "char \<Rightarrow> (string \<times> string) option \<Rightarrow> (string \<times> string) option" where
  "prepend c r = (case r of None \<Rightarrow> None | Some (s, rest) \<Rightarrow> Some (c # s, rest))"

text \<open>
  The characters of a string literal after its opening quotation mark, up to the closing
  one. A \<open>char\<close> is one byte, so an escape \<open>\uXXXX\<close> above U+00FF is outside the texts read.
\<close>

fun read_chars :: "string \<Rightarrow> (string \<times> string) option" where
  "read_chars [] = None"
| "read_chars (c # cs) =
     (if c = dq then Some ([], cs)
      else if c = bs then
        (case cs of
           [] \<Rightarrow> None
         | e # cs' \<Rightarrow>
             if e = CHR ''u'' then
               (case cs' of
                  h1 # h2 # h3 # h4 # cs'' \<Rightarrow>
                    (case hex4 h1 h2 h3 h4 of
                       None \<Rightarrow> None
                     | Some n \<Rightarrow> if n < 256 then prepend (char_of n) (read_chars cs'') else None)
                | _ \<Rightarrow> None)
             else (case unescape e of
                     None \<Rightarrow> None
                   | Some ch \<Rightarrow> prepend ch (read_chars cs')))
      else if (of_char c :: nat) < 32 then None
      else prepend c (read_chars cs))"

definition read_string :: "string \<Rightarrow> (string \<times> string) option" where
  "read_string cs = (case cs of [] \<Rightarrow> None | c # rest \<Rightarrow> if c = dq then read_chars rest else None)"

definition expect :: "string \<Rightarrow> string \<Rightarrow> string option" where
  "expect p cs = (if take (length p) cs = p then Some (drop (length p) cs) else None)"

subsection \<open>The leaderboard array and its JSON text\<close>

text \<open>One element \<open>{ name: playerName, score: score }\<close> of the leaderboard array.\<close>

record entry =
  entry_name :: string
  entry_score :: int

definition name_key :: string where
  "name_key = ''{'' @ JSON_quote ''name'' @ '':''"

definition score_key :: string where
  "score_key = '','' @ JSON_quote ''score'' @ '':''"

definition stringify_entry :: "entry \<Rightarrow> string" where
  "stringify_entry e =
     name_key @ JSON_quote (entry_name e) @ score_key @ Number_toString (entry_score e) @ ''}''"

fun join_commas :: "string list \<Rightarrow> string" where
  "join_commas [] = []"
| "join_commas [x] = x"
| "join_commas (x # y # ys) = x @ '','' @ join_commas (y # ys)"

definition JSON_stringify :: "entry list \<Rightarrow> string" where
  "JSON_stringify es = ''['' @ join_commas (map stringify_entry es) @ '']''"

definition read_entry :: "string \<Rightarrow> (entry \<times> string) option" where
  "read_entry cs =
     (case expect name_key cs of
        None \<Rightarrow> None
      | Some r1 \<Rightarrow>
          (case read_string r1 of
             None \<Rightarrow> None
           | Some (n, r2) \<Rightarrow>
               (case expect score_key r2 of
                  None \<Rightarrow> None
                | Some r3 \<Rightarrow>
                    (case read_int r3 of
                       None \<Rightarrow> None
                     | Some (i, r4) \<Rightarrow>
                         (case expect ''}'' r4 of
                            None \<Rightarrow> None
                          | Some r5 \<Rightarrow> Some (\<lparr>entry_name = n, entry_score = i\<rparr>, r5))))))"

text \<open>The elements of a non-empty array, separated by commas.\<close>

function read_entries :: "string \<Rightarrow> (entry list \<times> string) option" where
  "read_entries cs =
     (case read_entry cs of
        None \<Rightarrow> None
      | Some (e, r) \<Rightarrow>
          (case r of
             [] \<Rightarrow> Some ([e], r)
           | c # r' \<Rightarrow>
               if c = CHR '',''
                 then (case read_entries r' of
                         None \<Rightarrow> None
                       | Some (es, r'') \<Rightarrow> Some (e # es, r''))
               else Some ([e], r)))"
  by pat_completeness auto
text \<open>
  \<open>JSON.parse\<close> on the texts the script stores under the key \<open>leaderboard\<close>: an array of
  \<open>{"name":...,"score":...}\<close> objects with integer scores, written without white space, as
  \<open>JSON.stringify\<close> writes it. Every other text is answered with \<open>SyntaxError\<close>; that is
  what JavaScript does for every text that is not JSON at all. JSON of another shape
  (white space between the tokens, other keys or values) is outside this reader, so what is
  proved of a leaderboard that can be read is proved of the texts the script itself writes
  (\<open>as_written\<close> below).
\<close>

definition JSON_parse :: "string \<Rightarrow> js_error + entry list" where
  "JSON_parse t =
     (case t of
        [] \<Rightarrow> Inl SyntaxError
      | c # rest \<Rightarrow>
          if c \<noteq> CHR ''['' then Inl SyntaxError
          else if rest = '']'' then Inr []
          else (case read_entries rest of
                  None \<Rightarrow> Inl SyntaxError
                | Some (es, r) \<Rightarrow> if r = '']'' then Inr es else Inl SyntaxError))"

subsection \<open>Array.prototype.sort with a consistent comparator\<close>

text \<open>
  The language requires \<open>sort\<close> to be stable, so with a consistent comparator the result is
  fixed: elements in comparator order, ties in their order in the array. Inserting the
  elements from the left, each one behind everything that is not to come after it, gives
  that array.
\<close>

fun insert_sorted :: "('a \<Rightarrow> 'a \<Rightarrow> int) \<Rightarrow> 'a \<Rightarrow> 'a list \<Rightarrow> 'a list" where
  "insert_sorted cmp x [] = [x]"
| "insert_sorted cmp x (y # ys) =
     (if cmp y x \<le> 0 then y # insert_sorted cmp x ys else x # y # ys)"

definition Array_sort :: "('a \<Rightarrow> 'a \<Rightarrow> int) \<Rightarrow> 'a list \<Rightarrow> 'a list" where
  "Array_sort cmp xs = foldl (\<lambda>acc x. insert_sorted cmp x acc) [] xs"

subsection \<open>localStorage and the leaderboard\<close>

type_synonym storage = "string \<Rightarrow> string option"

text \<open>\<open>v || d\<close> for a string or \<open>null\<close>: both \<open>null\<close> and the empty string are falsy.\<close>

definition or_default :: "string option \<Rightarrow> string \<Rightarrow> string" where
  "or_default v d = (case v of None \<Rightarrow> d | Some t \<Rightarrow> if t = [] then d else t)"

text \<open>The comparator \<open>(a, b) => b.score - a.score\<close>.\<close>

definition by_score_desc :: "entry \<Rightarrow> entry \<Rightarrow> int" where
  "by_score_desc a b = entry_score b - entry_score a"

text \<open>An array whose scores do not increase from first to last.\<close>

abbreviation desc :: "entry list \<Rightarrow> bool" where
  "desc \<equiv> sorted_wrt (\<lambda>a b. entry_score b \<le> entry_score a)"

text \<open>
  The expression \<open>JSON.parse(localStorage.getItem('leaderboard') || '[]')\<close>, with which
  both \<open>updateLeaderboard\<close> and \<open>displayLeaderboard\<close> load the array.
\<close>

definition stored_leaderboard :: "storage \<Rightarrow> js_error + entry list" where
  "stored_leaderboard st = JSON_parse (or_default (st ''leaderboard'') ''[]'')"

text \<open>The name an entry gets: the argument, or when it is falsy the stored player, or \<open>Anonymous\<close>.\<close>

definition resolved_name :: "string option \<Rightarrow> storage \<Rightarrow> string" where
  "resolved_name playerName st =
     (if or_default playerName [] = [] then or_default (st ''currentPlayer'') ''Anonymous''
      else or_default playerName [])"

definition updateLeaderboard :: "string option \<Rightarrow> int \<Rightarrow> storage \<Rightarrow> js_error + storage" where
  "updateLeaderboard playerName score_arg st =
     (case stored_leaderboard st of
        Inl e \<Rightarrow> Inl e
      | Inr leaderboard \<Rightarrow>
          Inr (st(''leaderboard'' \<mapsto>
                 JSON_stringify
                   (take 5
                      (Array_sort by_score_desc
                         (leaderboard @
                            [\<lparr>entry_name = resolved_name playerName st,
                              entry_score = score_arg\<rparr>]))))))"

text \<open>A run of calls of \<open>updateLeaderboard\<close>, each with its name and score; it stops when one throws.\<close>

fun record_calls :: "(string option \<times> int) list \<Rightarrow> storage \<Rightarrow> js_error + storage" where
  "record_calls [] st = Inr st"
| "record_calls ((playerName, score_arg) # calls) st =
     (case updateLeaderboard playerName score_arg st of
        Inl e \<Rightarrow> Inl e
      | Inr st' \<Rightarrow> record_calls calls st')"

text \<open>The entry a call \<open>updateLeaderboard(playerName, score)\<close> appends.\<close>

definition added_entry :: "storage \<Rightarrow> string option \<times> int \<Rightarrow> entry" where
  "added_entry st call = \<lparr>entry_name = resolved_name (fst call) st, entry_score = snd call\<rparr>"

text \<open>
  The rows of the element \<open>leaderboard-entries\<close>: one per entry with its rank, then
  placeholder rows until there are five.
\<close>

datatype row = EntryRow nat string int | EmptyRow nat

function fill_rows :: "row list \<Rightarrow> row list" where
  "fill_rows children =
     (if length children < 5 then fill_rows (children @ [EmptyRow (length children + 1)])
      else children)"
  by pat_completeness auto
termination
  by (relation "measure (\<lambda>children. 5 - length children)") auto

declare fill_rows.simps [simp del]

text \<open>
  \<open>displayLeaderboard\<close> parses first and looks for the container second. The result is the
  container's new content, \<open>None\<close> on a page without the container.
\<close>

definition displayLeaderboard :: "bool \<Rightarrow> storage \<Rightarrow> js_error + row list option" where
  "displayLeaderboard has_container st =
     (case stored_leaderboard st of
        Inl e \<Rightarrow> Inl e
      | Inr leaderboard \<Rightarrow>
          if \<not> has_container then Inr None
          else Inr (Some (fill_rows
                 (map (\<lambda>(index, e). EntryRow (index + 1) (entry_name e) (entry_score e))
                      (enumerate 0 leaderboard)))))"

subsection \<open>JavaScript numbers\<close>

text \<open>
  A number is a rational or one of the three values division by zero produces. The script
  compares with \<open>===\<close> (for which \<open>NaN\<close> differs from itself) and searches with
  \<open>includes\<close> (for which it does not).
\<close>

datatype jsnum = NaN | Infinity | NegInfinity | Num rat

definition js_div :: "int \<Rightarrow> int \<Rightarrow> jsnum" where
  "js_div a b =
     (if b = 0 then (if a = 0 then NaN else if 0 < a then Infinity else NegInfinity)
      else Num (of_int a / of_int b))"

definition js_div_rat :: "rat \<Rightarrow> int \<Rightarrow> jsnum" where
  "js_div_rat a b =
     (if b = 0 then (if a = 0 then NaN else if 0 < a then Infinity else NegInfinity)
      else Num (a / of_int b))"

text \<open>\<open>x * 100\<close>.\<close>

definition times100 :: "jsnum \<Rightarrow> jsnum" where
  "times100 x = (case x of Num q \<Rightarrow> Num (q * 100) | _ \<Rightarrow> x)"

text \<open>\<open>x + d\<close> for a finite \<open>d\<close>.\<close>

definition js_plus :: "jsnum \<Rightarrow> rat \<Rightarrow> jsnum" where
  "js_plus x d = (case x of Num q \<Rightarrow> Num (q + d) | _ \<Rightarrow> x)"

definition Math_round :: "jsnum \<Rightarrow> jsnum" where
  "Math_round x = (case x of Num q \<Rightarrow> Num (of_int \<lfloor>q + 1 / 2\<rfloor>) | _ \<Rightarrow> x)"

definition strict_eq :: "jsnum \<Rightarrow> jsnum \<Rightarrow> bool" where
  "strict_eq a b = (a \<noteq> NaN \<and> a = b)"

subsection \<open>The game's data\<close>

datatype operation = addition | subtraction | multiplication | division

datatype difficulty = easy | medium | hard

record range =
  range_min :: int
  range_max :: int

fun difficultyRanges :: "difficulty \<Rightarrow> range" where
  "difficultyRanges easy = \<lparr>range_min = 1, range_max = 10\<rparr>"
| "difficultyRanges medium = \<lparr>range_min = 10, range_max = 25\<rparr>"
| "difficultyRanges hard = \<lparr>range_min = 25, range_max = 100\<rparr>"

record streak_achievement =
  streak_id :: string
  streak_name :: string
  requirement :: int
  streak_description :: string
  streak_awarded :: bool

text \<open>
  The object literal of the accuracy achievement has no property \<open>awarded\<close>; reading it
  gives \<open>undefined\<close>, which \<open>!\<close> treats as \<open>false\<close>.
\<close>

record accuracy_achievement =
  accuracy_id :: string
  accuracy_name :: string
  required_accuracy :: int
  required_questions :: int
  accuracy_description :: string
  awarded :: bool

definition achievements_streaks :: "streak_achievement list" where
  "achievements_streaks =
     [\<lparr>streak_id = ''streak5'', streak_name = ''High Five!'', requirement = 5,
       streak_description = ''Get a streak of 5 correct answers'', streak_awarded = False\<rparr>,
      \<lparr>streak_id = ''streak10'', streak_name = ''Perfect Ten!'', requirement = 10,
       streak_description = ''Get a streak of 10 correct answers'', streak_awarded = False\<rparr>,
      \<lparr>streak_id = ''streak15'', streak_name = ''Unstoppable!'', requirement = 15,
       streak_description = ''Get a streak of 15 correct answers'', streak_awarded = False\<rparr>,
      \<lparr>streak_id = ''streak20'', streak_name = ''Math Master!'', requirement = 20,
       streak_description = ''Get a streak of 20 correct answers'', streak_awarded = False\<rparr>]"

definition achievements_accuracy :: "accuracy_achievement list" where
  "achievements_accuracy =
     [\<lparr>accuracy_id = ''accuracy100_15'', accuracy_name = ''Sharp Shooter!'',
       required_accuracy = 100, required_questions = 15,
       accuracy_description = ''100% accuracy over 15 questions'', awarded = False\<rparr>]"

text \<open>
  \<open>Math.random()\<close> returns a number \<open>r\<close> with \<open>0 \<le> r < 1\<close>. The values it returns and the
  values of \<open>Date.now()\<close> (milliseconds) are given from outside, call by call.
\<close>

typedef unit_draw = "{r :: rat. 0 \<le> r \<and> r < 1}"
  morphisms draw_value Draw
  by (rule exI [of _ 0]) simp

setup_lifting type_definition_unit_draw

lift_definition frac_draw :: "nat \<Rightarrow> nat \<Rightarrow> unit_draw" is
  "\<lambda>a b. if a < b then of_nat a / of_nat b else 0"
  by auto

record env =
  mathRandom :: "nat \<Rightarrow> unit_draw"
  dateNow :: "nat \<Rightarrow> int"

datatype callback = TimerTick | MultiplayerTick

text \<open>
  The top-level variables of the script, then what the browser keeps (\<open>localStorage\<close>, the
  running \<open>setInterval\<close> timers, how often \<open>Math.random\<close> and \<open>Date.now\<close> were called), then
  what the page shows: the problem as its two numbers and operation, each option button
  with the two arguments its click passes to \<open>checkAnswer\<close>, the statistics, and the
  achievement notifications appended to the body.
\<close>

record game =
  currentOperation :: operation
  currentDifficulty :: difficulty
  score :: int
  streak :: int
  totalAttempts :: int
  timerActive :: bool
  timeRemaining :: int
  timerInterval :: "nat option"
  isMultiplayer :: bool
  currentPlayer :: int
  p1Score :: int
  p2Score :: int
  totalTime :: rat
  questionsStartTime :: int
  isMultiplayerRound :: bool
  multiplayerTimer :: int
  multiplayerInterval :: "nat option"
  isMusicPlaying :: bool
  streaks :: "streak_achievement list"
  accuracy :: "accuracy_achievement list"
  localStorage :: storage
  intervals :: "(nat \<times> callback) list"
  nextHandle :: nat
  randomCalls :: nat
  clockCalls :: nat
  problem :: "int \<times> operation \<times> int"
  optionButtons :: "(jsnum \<times> jsnum) list"
  scoreShown :: int
  streakShown :: int
  accuracyShown :: jsnum
  notifications :: "(string \<times> string) list"

subsection \<open>Problems and options\<close>

definition generateNumber :: "env \<Rightarrow> game \<Rightarrow> int \<times> game" where
  "generateNumber env s =
     (let r = difficultyRanges (currentDifficulty s) in
      (\<lfloor>draw_value (mathRandom env (randomCalls s)) * of_int (range_max r - range_min r + 1)\<rfloor>
         + range_min r,
       s\<lparr>randomCalls := randomCalls s + 1\<rparr>))"

definition calculateAnswer :: "game \<Rightarrow> int \<Rightarrow> int \<Rightarrow> jsnum" where
  "calculateAnswer s num1 num2 =
     (case currentOperation s of
        addition \<Rightarrow> Num (of_int (num1 + num2))
      | subtraction \<Rightarrow> Num (of_int (num1 - num2))
      | multiplication \<Rightarrow> Num (of_int (num1 * num2))
      | division \<Rightarrow> js_div num1 num2)"

text \<open>
  One round of the \<open>while\<close> loop of \<open>generateOptions\<close> calls \<open>Math.random\<close> twice, for
  the offset and for the sign; \<open>k\<close> counts the calls made before the round. This is the
  constant \<open>newOption\<close> of that round.
\<close>

definition newOption :: "env \<Rightarrow> jsnum \<Rightarrow> nat \<Rightarrow> jsnum" where
  "newOption env correctAnswer k =
     (let offset = \<lfloor>draw_value (mathRandom env k) * 5\<rfloor> + 1 in
      if draw_value (mathRandom env (k + 1)) < 1 / 2
        then js_plus correctAnswer (of_int offset)
      else js_plus correctAnswer (- of_int offset))"

text \<open>
  The source has no bound on the rounds, so the loop is a partial function: \<open>None\<close> when
  it never ends.
\<close>

partial_function (option) options_loop ::
  "env \<Rightarrow> jsnum \<Rightarrow> nat \<Rightarrow> jsnum list \<Rightarrow> (jsnum list \<times> nat) option" where
  "options_loop env correctAnswer k options =
     (if length options < 4 then
        options_loop env correctAnswer (k + 2)
          (if newOption env correctAnswer k \<in> set options then options
           else options @ [newOption env correctAnswer k])
      else Some (options, k))"

declare options_loop.simps [code]

text \<open>
  \<open>options.sort(() => Math.random() - 0.5)\<close>: the comparator ignores its arguments, so
  which order results is up to the engine. Here the array is built by insertion, one call
  of the comparator for each comparison.
\<close>

fun insert_random :: "env \<Rightarrow> 'a \<Rightarrow> 'a list \<Rightarrow> nat \<Rightarrow> 'a list \<times> nat" where
  "insert_random env x [] k = ([x], k)"
| "insert_random env x (y # ys) k =
     (if draw_value (mathRandom env k) - 1 / 2 \<le> 0
        then (case insert_random env x ys (k + 1) of (zs, k') \<Rightarrow> (y # zs, k'))
      else (x # y # ys, k + 1))"

definition sort_random :: "env \<Rightarrow> 'a list \<Rightarrow> nat \<Rightarrow> 'a list \<times> nat" where
  "sort_random env xs k = foldl (\<lambda>(acc, j) x. insert_random env x acc j) ([], k) xs"

definition generateOptions :: "env \<Rightarrow> jsnum \<Rightarrow> game \<Rightarrow> game option" where
  "generateOptions env correctAnswer s =
     (case options_loop env correctAnswer (randomCalls s) [correctAnswer] of
        None \<Rightarrow> None
      | Some (options, k) \<Rightarrow>
          (case sort_random env options k of
             (shuffled, k') \<Rightarrow>
               Some (s\<lparr>randomCalls := k',
                       optionButtons := map (\<lambda>option. (option, correctAnswer)) shuffled\<rparr>)))"

definition generateNewProblem :: "env \<Rightarrow> game \<Rightarrow> game option" where
  "generateNewProblem env s =
     (case generateNumber env s of
        (num1, s1) \<Rightarrow>
          (case generateNumber env s1 of
             (num2, s2) \<Rightarrow>
               (case (if currentOperation s2 = division
                        then generateOptions env (js_div (num1 * num2) num2)
                               (s2\<lparr>problem := (num1 * num2, division, num2)\<rparr>)
                      else generateOptions env (calculateAnswer s2 num1 num2)
                             (s2\<lparr>problem := (num1, currentOperation s2, num2)\<rparr>)) of
                  None \<Rightarrow> None
                | Some s3 \<Rightarrow>
                    Some (s3\<lparr>questionsStartTime := dateNow env (clockCalls s3),
                             clockCalls := clockCalls s3 + 1\<rparr>))))"

subsection \<open>How a handler ends\<close>

text \<open>
  A handler returns, or it throws, or it is caught in the loop of \<open>generateOptions\<close>, which
  then runs forever while the variables stay as the script had left them when it entered
  the loop. Each ending carries that state of the variables.
\<close>

datatype ending = Returns game | Throws js_error game | Hangs game

definition state_after :: "ending \<Rightarrow> game" where
  "state_after r = (case r of Returns s \<Rightarrow> s | Throws e s \<Rightarrow> s | Hangs s \<Rightarrow> s)"

definition returned :: "ending \<Rightarrow> game option" where
  "returned r = (case r of Returns s \<Rightarrow> Some s | Throws e s \<Rightarrow> None | Hangs s \<Rightarrow> None)"

text \<open>
  The answer \<open>generateNewProblem\<close> hands to \<open>generateOptions\<close>, and the state in which it
  does so: both numbers are drawn and the problem is on the page.
\<close>

definition drawn_answer :: "env \<Rightarrow> game \<Rightarrow> jsnum" where
  "drawn_answer env s =
     (case generateNumber env s of
        (num1, s1) \<Rightarrow>
          (case generateNumber env s1 of
             (num2, s2) \<Rightarrow>
               if currentOperation s2 = division then js_div (num1 * num2) num2
               else calculateAnswer s2 num1 num2))"

definition problem_drawn :: "env \<Rightarrow> game \<Rightarrow> game" where
  "problem_drawn env s =
     (case generateNumber env s of
        (num1, s1) \<Rightarrow>
          (case generateNumber env s1 of
             (num2, s2) \<Rightarrow>
               if currentOperation s2 = division
                 then s2\<lparr>problem := (num1 * num2, division, num2)\<rparr>
               else s2\<lparr>problem := (num1, currentOperation s2, num2)\<rparr>))"

text \<open>The call \<open>generateNewProblem()\<close> that ends a handler.\<close>

definition next_problem :: "env \<Rightarrow> game \<Rightarrow> ending" where
  "next_problem env s =
     (case generateNewProblem env s of
        None \<Rightarrow> Hangs (problem_drawn env s)
      | Some s' \<Rightarrow> Returns s')"

definition setOperation :: "env \<Rightarrow> operation \<Rightarrow> game \<Rightarrow> ending" where
  "setOperation env operation_arg s = next_problem env (s\<lparr>currentOperation := operation_arg\<rparr>)"

definition setDifficulty :: "env \<Rightarrow> difficulty \<Rightarrow> game \<Rightarrow> ending" where
  "setDifficulty env difficulty_arg s = next_problem env (s\<lparr>currentDifficulty := difficulty_arg\<rparr>)"

subsection \<open>Statistics and achievements\<close>

definition updateStats :: "game \<Rightarrow> game" where
  "updateStats s =
     s\<lparr>scoreShown := score s,
       streakShown := streak s,
       accuracyShown := Math_round (times100 (js_div (score s) (totalAttempts s)))\<rparr>"

text \<open>The two constants of \<open>updateReportData\<close>, each behind its guard \<open>totalAttempts > 0\<close>.\<close>

definition accuracyPercentage :: "game \<Rightarrow> jsnum" where
  "accuracyPercentage s =
     (if 0 < totalAttempts s then Math_round (times100 (js_div (score s) (totalAttempts s)))
      else Num 0)"

definition avgTime :: "game \<Rightarrow> jsnum" where
  "avgTime s =
     (if 0 < totalAttempts s then Math_round (js_div_rat (totalTime s) (totalAttempts s))
      else Num 0)"

text \<open>
  A number inside a template literal. Only whole numbers reach it (both constants come out
  of \<open>Math.round\<close>), so the digits after a decimal point are not written out.
\<close>

definition template_number :: "jsnum \<Rightarrow> string" where
  "template_number x =
     (case x of
        NaN \<Rightarrow> ''NaN''
      | Infinity \<Rightarrow> ''Infinity''
      | NegInfinity \<Rightarrow> ''-Infinity''
      | Num q \<Rightarrow> Number_toString \<lfloor>q\<rfloor>)"

definition updateReportData :: "game \<Rightarrow> game" where
  "updateReportData s =
     s\<lparr>localStorage :=
         (localStorage s)
           (''accuracy'' \<mapsto> template_number (accuracyPercentage s) @ ''%'',
            ''questionsSolved'' \<mapsto> Number_toString (totalAttempts s),
            ''avgTime'' \<mapsto> template_number (avgTime s) @ ''s'')\<rparr>"

text \<open>\<open>awardAchievement\<close> appends a notification with the name and the description.\<close>

definition awardAchievement :: "string \<Rightarrow> string \<Rightarrow> game \<Rightarrow> game" where
  "awardAchievement ach_name ach_description s =
     s\<lparr>notifications := notifications s @ [(ach_name, ach_description)]\<rparr>"

definition checkAchievements :: "game \<Rightarrow> game" where
  "checkAchievements s =
     (let s1 = foldl (\<lambda>st achievement.
                   if streak st = requirement achievement
                     then awardAchievement (streak_name achievement)
                            (streak_description achievement) st
                   else st) s (streaks s)
      in foldl (\<lambda>st achievement.
                   if \<not> awarded achievement
                      \<and> totalAttempts st = required_questions achievement
                      \<and> strict_eq (times100 (js_div (score st) (totalAttempts st)))
                           (Num (of_int (required_accuracy achievement)))
                     then awardAchievement (accuracy_name achievement)
                            (accuracy_description achievement) st
                   else st) s1 (accuracy s1))"

subsection \<open>Answering\<close>

definition checkAnswer :: "env \<Rightarrow> jsnum \<Rightarrow> jsnum \<Rightarrow> game \<Rightarrow> ending" where
  "checkAnswer env selected correct s =
     (let isCorrect = strict_eq selected correct;
          s1 = s\<lparr>totalAttempts := totalAttempts s + 1\<rparr>;
          timeForQuestion = of_int (dateNow env (clockCalls s1) - questionsStartTime s1) / 1000;
          s2 = s1\<lparr>clockCalls := clockCalls s1 + 1, totalTime := totalTime s1 + timeForQuestion\<rparr>;
          s3 = (if isCorrect then
                  (let s' = s2\<lparr>score := score s2 + 1, streak := streak s2 + 1\<rparr>
                   in if isMultiplayerRound s' then
                        (if currentPlayer s' = 1 then s'\<lparr>p1Score := p1Score s' + 1\<rparr>
                         else s'\<lparr>p2Score := p2Score s' + 1\<rparr>)
                      else s')
                else s2\<lparr>streak := 0\<rparr>)
      in next_problem env (updateReportData (checkAchievements (updateStats s3))))"

subsection \<open>Interval timers\<close>

text \<open>
  \<open>setInterval\<close> returns a fresh handle and keeps the timer running until \<open>clearInterval\<close>
  is called with that handle; \<open>clearInterval(undefined)\<close> does nothing. A variable that
  holds \<open>undefined\<close> is \<open>None\<close>. Callbacks of \<open>setTimeout\<close> that only change what the page
  shows are not kept.
\<close>

definition setInterval :: "callback \<Rightarrow> game \<Rightarrow> nat \<times> game" where
  "setInterval cb s =
     (nextHandle s,
      s\<lparr>intervals := intervals s @ [(nextHandle s, cb)], nextHandle := nextHandle s + 1\<rparr>)"

definition clearInterval :: "nat option \<Rightarrow> game \<Rightarrow> game" where
  "clearInterval h s =
     (case h of
        None \<Rightarrow> s
      | Some i \<Rightarrow> s\<lparr>intervals := filter (\<lambda>t. fst t \<noteq> i) (intervals s)\<rparr>)"

text \<open>\<open>if (multiplayerInterval)\<close>: \<open>undefined\<close> and \<open>0\<close> are falsy.\<close>

definition truthy :: "nat option \<Rightarrow> bool" where
  "truthy h = (case h of None \<Rightarrow> False | Some i \<Rightarrow> i \<noteq> 0)"

subsection \<open>Reset, timer mode and multiplayer mode\<close>

definition resetGame :: "env \<Rightarrow> game \<Rightarrow> ending" where
  "resetGame env s =
     (let s1 = s\<lparr>score := 0, streak := 0, totalAttempts := 0, p1Score := 0, p2Score := 0,
                 currentPlayer := 1, totalTime := 0, isMultiplayerRound := False\<rparr>;
          s2 = (if truthy (multiplayerInterval s1) then clearInterval (multiplayerInterval s1) s1
                else s1)
      in next_problem env (updateReportData (updateStats s2)))"

definition toggleTimer :: "game \<Rightarrow> game" where
  "toggleTimer s =
     (let s1 = s\<lparr>timerActive := \<not> timerActive s\<rparr> in
      if timerActive s1 then
        (case setInterval TimerTick (s1\<lparr>score := 0, timeRemaining := 30\<rparr>) of
           (h, s2) \<Rightarrow> s2\<lparr>timerInterval := Some h\<rparr>)
      else clearInterval (timerInterval s1) s1)"

text \<open>
  \<open>showTimerEndMessage\<close> records the score; the announcement and the redirect to the
  leaderboard page three seconds later are not kept.
\<close>

definition showTimerEndMessage :: "game \<Rightarrow> js_error + game" where
  "showTimerEndMessage s =
     (case updateLeaderboard (localStorage s ''currentPlayer'') (score s) (localStorage s) of
        Inl e \<Rightarrow> Inl e
      | Inr st \<Rightarrow> Inr (s\<lparr>localStorage := st\<rparr>))"

text \<open>The callback of the single-player timer, once a second.\<close>

definition timerCallback :: "env \<Rightarrow> game \<Rightarrow> ending" where
  "timerCallback env s =
     (let s1 = s\<lparr>timeRemaining := timeRemaining s - 1\<rparr> in
      if timeRemaining s1 \<le> 0 then
        (let s2 = clearInterval (timerInterval s1) s1 in
         case showTimerEndMessage s2 of
           Inl e \<Rightarrow> Throws e s2
         | Inr s3 \<Rightarrow> resetGame env s3)
      else Returns s1)"

definition startMultiplayerRound :: "env \<Rightarrow> game \<Rightarrow> ending" where
  "startMultiplayerRound env s =
     (case resetGame env s of
        Returns s' \<Rightarrow> Returns (s'\<lparr>currentPlayer := 1, p1Score := 0, p2Score := 0\<rparr>)
      | Throws e s' \<Rightarrow> Throws e s'
      | Hangs s' \<Rightarrow> Hangs s')"

definition toggleMultiplayer :: "env \<Rightarrow> game \<Rightarrow> ending" where
  "toggleMultiplayer env s =
     (let s1 = s\<lparr>isMultiplayer := \<not> isMultiplayer s\<rparr> in
      if isMultiplayer s1 then startMultiplayerRound env s1
      else resetGame env
             (if truthy (multiplayerInterval s1) then clearInterval (multiplayerInterval s1) s1
              else s1))"

text \<open>\<open>startPlayerTurn\<close> is what the countdown calls when it has shown \<open>GO!\<close>.\<close>

definition startPlayerTurn :: "game \<Rightarrow> game" where
  "startPlayerTurn s =
     (case setInterval MultiplayerTick (s\<lparr>multiplayerTimer := 15, isMultiplayerRound := True\<rparr>) of
        (h, s1) \<Rightarrow> s1\<lparr>multiplayerInterval := Some h\<rparr>)"

text \<open>
  After player 1 the turn passes to player 2 (the countdown that follows calls
  \<open>startPlayerTurn\<close> again); after player 2 \<open>announceWinner\<close> shows the result and leaves
  the variables alone until its timeout, three seconds later, runs \<open>announcementTimeout\<close>.
\<close>

datatype outcome = Player1Wins | Player2Wins | Tie

definition announceWinner :: "game \<Rightarrow> outcome" where
  "announceWinner s =
     (if p1Score s > p2Score s then Player1Wins
      else if p2Score s > p1Score s then Player2Wins
      else Tie)"

definition handleTurnEnd :: "game \<Rightarrow> game" where
  "handleTurnEnd s = (if currentPlayer s = 1 then s\<lparr>currentPlayer := 2\<rparr> else s)"

definition multiplayerCallback :: "game \<Rightarrow> game" where
  "multiplayerCallback s =
     (let s1 = s\<lparr>multiplayerTimer := multiplayerTimer s - 1\<rparr> in
      if multiplayerTimer s1 \<le> 0 then handleTurnEnd (clearInterval (multiplayerInterval s1) s1)
      else s1)"

definition announcementTimeout :: "env \<Rightarrow> game \<Rightarrow> ending" where
  "announcementTimeout env s = resetGame env (s\<lparr>isMultiplayer := False\<rparr>)"

definition toggleMusic :: "game \<Rightarrow> game" where
  "toggleMusic s = s\<lparr>isMusicPlaying := \<not> isMusicPlaying s\<rparr>"

subsection \<open>The handlers of the game page\<close>

datatype event =
    SetOperation operation
  | SetDifficulty difficulty
  | CheckAnswer jsnum jsnum
  | ToggleTimer
  | TimerCallback
  | ToggleMultiplayer
  | CountdownDone
  | MultiplayerCallback
  | AnnouncementTimeout
  | ToggleMusic

fun handle :: "env \<Rightarrow> event \<Rightarrow> game \<Rightarrow> ending" where
  "handle env (SetOperation operation_arg) s = setOperation env operation_arg s"
| "handle env (SetDifficulty difficulty_arg) s = setDifficulty env difficulty_arg s"
| "handle env (CheckAnswer selected correct) s = checkAnswer env selected correct s"
| "handle env ToggleTimer s = Returns (toggleTimer s)"
| "handle env TimerCallback s = timerCallback env s"
| "handle env ToggleMultiplayer s = toggleMultiplayer env s"
| "handle env CountdownDone s = Returns (startPlayerTurn s)"
| "handle env MultiplayerCallback s = Returns (multiplayerCallback s)"
| "handle env AnnouncementTimeout s = announcementTimeout env s"
| "handle env ToggleMusic s = Returns (toggleMusic s)"

subsection \<open>A page just loaded, and an environment to run it in\<close>

text \<open>
  The variables as the declarations at the top of the script initialise them, before its
  last line calls \<open>generateNewProblem()\<close>: \<open>questionsStartTime\<close> is still \<open>undefined\<close>, no
  problem is shown and there are no buttons. \<open>page_loaded\<close> is how that last line ends.
\<close>

definition initial_game :: game where
  "initial_game =
     \<lparr>currentOperation = addition, currentDifficulty = easy, score = 0, streak = 0,
      totalAttempts = 0, timerActive = False, timeRemaining = 30, timerInterval = None,
      isMultiplayer = False, currentPlayer = 1, p1Score = 0, p2Score = 0, totalTime = 0,
      questionsStartTime = 0, isMultiplayerRound = False, multiplayerTimer = 15,
      multiplayerInterval = None, isMusicPlaying = False,
      streaks = achievements_streaks, accuracy = achievements_accuracy,
      localStorage = Map.empty, intervals = [], nextHandle = 1, randomCalls = 0,
      clockCalls = 0, problem = (0, addition, 0), optionButtons = [], scoreShown = 0,
      streakShown = 0, accuracyShown = Num 0, notifications = []\<rparr>"

definition page_loaded :: "env \<Rightarrow> ending" where
  "page_loaded env = next_problem env initial_game"

text \<open>A game in progress: three of four answers were correct, nine seconds were spent.\<close>

definition played :: game where
  "played = initial_game\<lparr>score := 3, streak := 3, totalAttempts := 4, totalTime := 9\<rparr>"

text \<open>
  An environment whose \<open>k\<close>-th random number is \<open>(k mod 10) / 10\<close> and whose clock advances
  two seconds with every reading.
\<close>

definition cycling_env :: env where
  "cycling_env = \<lparr>mathRandom = (\<lambda>k. frac_draw (k mod 10) 10), dateNow = (\<lambda>k. 2000 * int k)\<rparr>"

text \<open>An environment whose random number is always \<open>0\<close>.\<close>

definition constant_env :: env where
  "constant_env = \<lparr>mathRandom = (\<lambda>k. frac_draw 0 1), dateNow = (\<lambda>k. 2000 * int k)\<rparr>"

subsection \<open>Runs, and what the theorems speak about\<close>

text \<open>
  A run of handlers, one after the other. When one throws or hangs, the run ends there: a
  handler that throws leaves the page to the next event, but the runs below are about
  handlers that return.
\<close>

fun run :: "env \<Rightarrow> event list \<Rightarrow> game \<Rightarrow> ending" where
  "run env [] s = Returns s"
| "run env (e # es) s =
     (case handle env e s of
        Returns s' \<Rightarrow> run env es s'
      | Throws x s' \<Rightarrow> Throws x s'
      | Hangs s' \<Rightarrow> Hangs s')"

text \<open>
  A run of calls \<open>checkAnswer(selected, correct)\<close>. A call that hangs is the last one made:
  the page no longer answers. \<open>calls_made\<close> are the calls of the run that were made.
\<close>

fun checkAnswers :: "env \<Rightarrow> (jsnum \<times> jsnum) list \<Rightarrow> game \<Rightarrow> ending" where
  "checkAnswers env [] s = Returns s"
| "checkAnswers env ((selected, correct) # calls) s =
     (case checkAnswer env selected correct s of
        Returns s' \<Rightarrow> checkAnswers env calls s'
      | Throws x s' \<Rightarrow> Throws x s'
      | Hangs s' \<Rightarrow> Hangs s')"

fun calls_made :: "env \<Rightarrow> (jsnum \<times> jsnum) list \<Rightarrow> game \<Rightarrow> (jsnum \<times> jsnum) list" where
  "calls_made env [] s = []"
| "calls_made env ((selected, correct) # calls) s =
     (selected, correct) #
       (case checkAnswer env selected correct s of
          Returns s' \<Rightarrow> calls_made env calls s'
        | Throws x s' \<Rightarrow> []
        | Hangs s' \<Rightarrow> [])"

text \<open>Whether a call \<open>checkAnswer(selected, correct)\<close> counts as correct: \<open>selected === correct\<close>.\<close>

definition is_correct :: "jsnum \<times> jsnum \<Rightarrow> bool" where
  "is_correct call = strict_eq (fst call) (snd call)"

text \<open>The four counters of a session.\<close>

definition session :: "game \<Rightarrow> int \<times> int \<times> int \<times> rat" where
  "session s = (score s, streak s, totalAttempts s, totalTime s)"

text \<open>A number within the inclusive range of a difficulty.\<close>

definition in_range :: "difficulty \<Rightarrow> int \<Rightarrow> bool" where
  "in_range d n = (range_min (difficultyRanges d) \<le> n \<and> n \<le> range_max (difficultyRanges d))"

text \<open>A store whose leaderboard item is not JSON.\<close>

definition broken_store :: storage where
  "broken_store = Map.empty(''leaderboard'' \<mapsto> ''{oops'')"

text \<open>One round of the loop, as a step on the array.\<close>

definition next_options :: "env \<Rightarrow> jsnum \<Rightarrow> nat \<Rightarrow> jsnum list \<Rightarrow> jsnum list" where
  "next_options env c k opts =
     (if newOption env c k \<in> set opts then opts else opts @ [newOption env c k])"

text \<open>What \<open>checkAnswer\<close> has done to the variables when it reaches \<open>generateNewProblem\<close>.\<close>

definition answered :: "env \<Rightarrow> jsnum \<Rightarrow> jsnum \<Rightarrow> game \<Rightarrow> game" where
  "answered env selected correct s =
     (let s2 = s\<lparr>totalAttempts := totalAttempts s + 1,
                 clockCalls := clockCalls s + 1,
                 totalTime := totalTime s + of_int (dateNow env (clockCalls s) - questionsStartTime s) / 1000\<rparr>
      in if strict_eq selected correct then
           (let s' = s2\<lparr>score := score s + 1, streak := streak s + 1\<rparr>
            in if isMultiplayerRound s then
                 (if currentPlayer s = 1 then s'\<lparr>p1Score := p1Score s + 1\<rparr>
                  else s'\<lparr>p2Score := p2Score s + 1\<rparr>)
               else s')
         else s2\<lparr>streak := 0\<rparr>)"

text \<open>The assignments of \<open>resetGame\<close>, before it updates the page.\<close>

definition reset_variables :: "game \<Rightarrow> game" where
  "reset_variables s =
     (let s1 = s\<lparr>score := 0, streak := 0, totalAttempts := 0, p1Score := 0, p2Score := 0,
                 currentPlayer := 1, totalTime := 0, isMultiplayerRound := False\<rparr>
      in if truthy (multiplayerInterval s1) then clearInterval (multiplayerInterval s1) s1 else s1)"

text \<open>
  A leaderboard item as the game leaves it: missing, empty, or the very text
  \<open>JSON.stringify\<close> writes for the array that \<open>JSON.parse\<close> reads from it.
\<close>

definition as_written :: "storage \<Rightarrow> bool" where
  "as_written st =
     (case st ''leaderboard'' of
        None \<Rightarrow> True
      | Some t \<Rightarrow>
          t = [] \<or> (case JSON_parse t of Inl e \<Rightarrow> False | Inr lb \<Rightarrow> JSON_stringify lb = t))"

text \<open>
  The values \<open>newOption\<close> takes in the first \<open>n\<close> rounds of the loop of \<open>generateOptions\<close>,
  when \<open>Math.random\<close> has been called \<open>k\<close> times before the loop.
\<close>

definition candidates :: "env \<Rightarrow> jsnum \<Rightarrow> nat \<Rightarrow> nat \<Rightarrow> jsnum set" where
  "candidates env correctAnswer k n = (\<lambda>j. newOption env correctAnswer (k + 2 * j)) ` {..<n}"

text \<open>How often the notification of an achievement has been appended to the page.\<close>

definition times_shown :: "string \<Rightarrow> game \<Rightarrow> nat" where
  "times_shown ach_name s = length (filter (\<lambda>n. fst n = ach_name) (notifications s))"

section \<open>Proofs\<close>

subsection \<open>The array reader terminates\<close>

text \<open>Every reader consumes what it accepts, so each entry leaves a shorter text.\<close>

lemma expect_length: "expect p cs = Some r \<Longrightarrow> length r \<le> length cs"
  by (auto simp: expect_def split: if_splits)

lemma expect_shorter: "expect p cs = Some r \<Longrightarrow> p \<noteq> [] \<Longrightarrow> length r < length cs"
  by (cases cs) (auto simp: expect_def split: if_splits)

lemma read_chars_length: "read_chars cs = Some (s, r) \<Longrightarrow> length r < length cs"
proof (induction cs arbitrary: s r rule: read_chars.induct)
  case 1
  then show ?case by simp
next
  case (2 c cs)
  show ?case
    using "2.prems" "2.IH"
    by (fastforce simp: prepend_def split: if_splits list.splits option.splits)
qed

lemma read_string_length: "read_string cs = Some (s, r) \<Longrightarrow> length r < length cs"
  by (auto simp: read_string_def split: list.splits if_splits dest!: read_chars_length)

lemma read_digits_length: "read_digits acc cs = (n, r) \<Longrightarrow> length r \<le> length cs"
  by (induction cs arbitrary: acc) (auto split: if_splits dest: le_SucI)

lemma read_nat_length: "read_nat cs = Some (n, r) \<Longrightarrow> length r \<le> length cs"
  by (auto simp: read_nat_def split: list.splits if_splits dest: read_digits_length)

lemma read_int_length: "read_int cs = Some (i, r) \<Longrightarrow> length r \<le> length cs"
  by (auto simp: read_int_def split: list.splits if_splits option.splits
           dest!: read_nat_length)

lemma read_entry_length: "read_entry cs = Some (e, r) \<Longrightarrow> length r < length cs"
proof -
  assume a: "read_entry cs = Some (e, r)"
  then obtain r1 n r2 r3 i r4 where
    s1: "expect name_key cs = Some r1" and s2: "read_string r1 = Some (n, r2)" and
    s3: "expect score_key r2 = Some r3" and s4: "read_int r3 = Some (i, r4)" and
    s5: "expect ''}'' r4 = Some r"
    by (auto simp: read_entry_def split: option.splits)
  from expect_length [OF s1] read_string_length [OF s2] expect_length [OF s3]
    read_int_length [OF s4] expect_length [OF s5]
  show ?thesis by linarith
qed

termination read_entries
  by (relation "measure length") (auto dest!: read_entry_length)

declare read_entries.simps [simp del]

subsection \<open>What JSON.parse reads is what JSON.stringify wrote\<close>

lemma digit_char_is_digit: "d < 10 \<Longrightarrow> is_digit (digit_char d) \<and> digit_val (digit_char d) = d"
proof -
  assume "d < 10"
  then have "d \<in> {0,1,2,3,4,5,6,7,8,9}" by auto
  then show ?thesis
    by (auto simp: digit_char_def is_digit_def digit_val_def)
qed

lemma read_digits_snoc:
  "\<forall>c\<in>set xs. is_digit c \<Longrightarrow> d < 10 \<Longrightarrow> \<not> (case rest of [] \<Rightarrow> False | c # _ \<Rightarrow> is_digit c) \<Longrightarrow>
   read_digits acc (xs @ digit_char d # rest) = (fst (read_digits acc xs) * 10 + d, rest)"
  by (induction xs arbitrary: acc) (auto simp: digit_char_is_digit split: list.splits)

lemma show_nat_digits: "\<forall>c\<in>set (show_nat n). is_digit c"
  by (induction n rule: show_nat.induct) (subst show_nat.simps, auto simp: digit_char_is_digit)

lemma read_digits_all: "\<forall>c\<in>set xs. is_digit c \<Longrightarrow> snd (read_digits acc xs) = []"
  by (induction xs arbitrary: acc) auto

lemma read_digits_show_nat0: "fst (read_digits 0 (show_nat n)) = n"
proof (induction n rule: show_nat.induct)
  case (1 n)
  show ?case
  proof (cases "n < 10")
    case True
    then show ?thesis by (subst show_nat.simps) (simp add: digit_char_is_digit)
  next
    case False
    have "read_digits 0 (show_nat (n div 10) @ digit_char (n mod 10) # []) =
          (fst (read_digits 0 (show_nat (n div 10))) * 10 + n mod 10, [])"
      by (rule read_digits_snoc) (auto simp: show_nat_digits)
    with False "1.IH" show ?thesis by (subst show_nat.simps) simp
  qed
qed

lemma read_digits_append:
  "\<forall>c\<in>set xs. is_digit c \<Longrightarrow> no_digit_ahead rest \<Longrightarrow>
   read_digits acc (xs @ rest) = (fst (read_digits acc xs), rest)"
  by (induction xs arbitrary: acc) (auto simp: no_digit_ahead_def split: list.splits)

lemma read_digits_show_nat:
  "no_digit_ahead rest \<Longrightarrow> read_digits 0 (show_nat n @ rest) = (n, rest)"
  by (simp add: read_digits_append show_nat_digits read_digits_show_nat0)

lemma show_nat_nonempty: "show_nat n \<noteq> []"
  by (subst show_nat.simps) simp

lemma show_nat_zero: "show_nat 0 = ''0''"
  by (subst show_nat.simps) (simp add: digit_char_def)

lemma hd_show_nat: "0 < n \<Longrightarrow> hd (show_nat n) \<noteq> CHR ''0''"
proof (induction n rule: show_nat.induct)
  case (1 n)
  show ?case
  proof (cases "n < 10")
    case True
    with "1.prems" have "n \<in> {1,2,3,4,5,6,7,8,9}" by auto
    then show ?thesis by (subst show_nat.simps) (auto simp: digit_char_def)
  next
    case False
    then have "0 < n div 10" by simp
    with False "1.IH" show ?thesis
      by (subst show_nat.simps) (simp add: show_nat_nonempty)
  qed
qed

lemma read_nat_show_nat:
  assumes "no_digit_ahead rest"
  shows "read_nat (show_nat n @ rest) = Some (n, rest)"
proof (cases "n = 0")
  case True
  with assms show ?thesis
    by (auto simp: show_nat_zero read_nat_def is_digit_def no_digit_ahead_def split: list.splits)
next
  case False
  obtain c cs where cs: "show_nat n = c # cs"
    using show_nat_nonempty [of n] by (cases "show_nat n") auto
  have "is_digit c" using show_nat_digits [of n] cs by simp
  moreover have "c \<noteq> CHR ''0''" using hd_show_nat [of n] False cs by simp
  moreover have "read_digits 0 ((c # cs) @ rest) = (n, rest)"
    using read_digits_show_nat [OF assms, of n] cs by simp
  ultimately show ?thesis
    by (simp add: read_nat_def cs)
qed

lemma minus_not_digit: "\<not> is_digit CHR ''-''"
  by (simp add: is_digit_def)

lemma read_int_toString:
  assumes "no_digit_ahead rest"
  shows "read_int (Number_toString i @ rest) = Some (i, rest)"
proof (cases "i < 0")
  case True
  then show ?thesis
    by (simp add: Number_toString_def read_int_def read_nat_show_nat [OF assms])
next
  case False
  obtain c cs where cs: "show_nat (nat i) = c # cs"
    using show_nat_nonempty [of "nat i"] by (cases "show_nat (nat i)") auto
  have "is_digit c" using show_nat_digits [of "nat i"] cs by simp
  then have "c \<noteq> CHR ''-''" using minus_not_digit by auto
  moreover have "read_nat ((c # cs) @ rest) = Some (nat i, rest)"
    using read_nat_show_nat [OF assms, of "nat i"] cs by simp
  ultimately show ?thesis using False
    by (simp add: Number_toString_def read_int_def cs)
qed

lemma hex_roundtrip:
  assumes "(of_char c :: nat) < 32"
  shows "hex4 CHR ''0'' CHR ''0'' (digit_char (of_char c div 16)) (digit_char (of_char c mod 16))
         = Some (of_char c)"
proof -
  let ?n = "of_char c :: nat"
  have "?n = 0 \<or> ?n = 1 \<or> ?n = 2 \<or> ?n = 3 \<or> ?n = 4 \<or> ?n = 5 \<or> ?n = 6 \<or> ?n = 7
      \<or> ?n = 8 \<or> ?n = 9 \<or> ?n = 10 \<or> ?n = 11 \<or> ?n = 12 \<or> ?n = 13 \<or> ?n = 14 \<or> ?n = 15
      \<or> ?n = 16 \<or> ?n = 17 \<or> ?n = 18 \<or> ?n = 19 \<or> ?n = 20 \<or> ?n = 21 \<or> ?n = 22 \<or> ?n = 23
      \<or> ?n = 24 \<or> ?n = 25 \<or> ?n = 26 \<or> ?n = 27 \<or> ?n = 28 \<or> ?n = 29 \<or> ?n = 30 \<or> ?n = 31"
    using assms by arith
  then show ?thesis
    by (elim disjE) (simp_all add: hex4_def hex_val_def digit_char_def)
qed

lemma read_chars_quote_char:
  "read_chars (quote_char c @ rest) = prepend c (read_chars rest)"
proof -
  consider "c = dq" | "c = bs" | "c \<in> {CHR 0x08, CHR 0x0C, CHR 0x0A, CHR 0x0D, CHR 0x09}"
    | "c \<noteq> dq" "c \<noteq> bs" "c \<notin> {CHR 0x08, CHR 0x0C, CHR 0x0A, CHR 0x0D, CHR 0x09}" "(of_char c :: nat) < 32"
    | "c \<noteq> dq" "c \<noteq> bs" "\<not> (of_char c :: nat) < 32"
    by blast
  then show ?thesis
  proof cases
    case 1
    then show ?thesis by (simp add: quote_char_def unescape_def dq_def bs_def)
  next
    case 2
    then show ?thesis by (simp add: quote_char_def unescape_def dq_def bs_def)
  next
    case 3
    then show ?thesis by (auto simp: quote_char_def unescape_def dq_def bs_def)
  next
    case 4
    then show ?thesis
      using hex_roundtrip [of c]
      by (auto simp: quote_char_def dq_def bs_def)
  next
    case 5
    then have "c \<notin> {CHR 0x08, CHR 0x0C, CHR 0x0A, CHR 0x0D, CHR 0x09}" by auto
    with 5 show ?thesis by (auto simp: quote_char_def)
  qed
qed

lemma read_chars_quoted:
  "read_chars (concat (map quote_char s) @ dq # rest) = Some (s, rest)"
  by (induction s) (simp_all add: read_chars_quote_char prepend_def)

lemma read_string_quote: "read_string (JSON_quote s @ rest) = Some (s, rest)"
  by (simp add: read_string_def JSON_quote_def read_chars_quoted)

lemma expect_prefix: "expect p (p @ rest) = Some rest"
  by (simp add: expect_def)

lemma read_entry_stringify: "read_entry (stringify_entry e @ rest) = Some (e, rest)"
proof -
  have n: "no_digit_ahead (''}'' @ rest)" by (simp add: no_digit_ahead_def is_digit_def)
  have "expect ''}'' (''}'' @ rest) = Some rest" by (rule expect_prefix)
  then show ?thesis
    by (simp add: read_entry_def stringify_entry_def expect_prefix read_string_quote
        read_int_toString [OF n] del: append.simps)
qed

lemma read_entries_join:
  "es \<noteq> [] \<Longrightarrow> (case rest of [] \<Rightarrow> True | c # _ \<Rightarrow> c \<noteq> CHR '','') \<Longrightarrow>
   read_entries (join_commas (map stringify_entry es) @ rest) = Some (es, rest)"
proof (induction es)
  case Nil
  then show ?case by simp
next
  case (Cons e es)
  show ?case
  proof (cases es)
    case Nil
    with Cons.prems show ?thesis
      by (subst read_entries.simps) (auto simp: read_entry_stringify split: list.splits)
  next
    case (Cons f fs)
    with Cons.IH Cons.prems show ?thesis
      by (subst read_entries.simps) (simp add: read_entry_stringify)
  qed
qed

lemma JSON_parse_stringify: "JSON_parse (JSON_stringify es) = Inr es"
proof (cases es)
  case Nil
  then show ?thesis by (simp add: JSON_parse_def JSON_stringify_def)
next
  case (Cons e es')
  have ne: "join_commas (map stringify_entry es) @ '']'' \<noteq> '']''"
  proof -
    have "join_commas (map stringify_entry es) \<noteq> []"
      using Cons by (cases es') (auto simp: stringify_entry_def name_key_def)
    then show ?thesis by simp
  qed
  have "read_entries (join_commas (map stringify_entry es) @ '']'') = Some (es, '']'')"
    using Cons by (intro read_entries_join) auto
  with ne show ?thesis by (simp add: JSON_parse_def JSON_stringify_def)
qed

subsection \<open>Sorting the leaderboard\<close>

lemma set_insert_sorted: "set (insert_sorted cmp x ys) = insert x (set ys)"
  by (induction ys) auto

lemma mset_insert_sorted: "mset (insert_sorted cmp x ys) = add_mset x (mset ys)"
  by (induction ys) auto

lemma desc_insert_sorted: "desc ys \<Longrightarrow> desc (insert_sorted by_score_desc x ys)"
  by (induction ys) (auto simp: set_insert_sorted by_score_desc_def)

lemma Array_sort_snoc:
  "Array_sort cmp (xs @ [x]) = insert_sorted cmp x (Array_sort cmp xs)"
  by (simp add: Array_sort_def)

lemma desc_Array_sort: "desc (Array_sort by_score_desc xs)"
proof (induction xs rule: rev_induct)
  case Nil
  then show ?case by (simp add: Array_sort_def)
next
  case (snoc x xs)
  then show ?case by (simp add: Array_sort_snoc desc_insert_sorted)
qed

lemma mset_Array_sort: "mset (Array_sort cmp xs) = mset xs"
proof (induction xs rule: rev_induct)
  case Nil
  then show ?case by (simp add: Array_sort_def)
next
  case (snoc x xs)
  then show ?case by (simp add: Array_sort_snoc mset_insert_sorted)
qed

lemma insert_sorted_last:
  "\<forall>y\<in>set ys. entry_score x \<le> entry_score y \<Longrightarrow> insert_sorted by_score_desc x ys = ys @ [x]"
  by (induction ys) (auto simp: by_score_desc_def)

lemma Array_sort_desc_id: "desc xs \<Longrightarrow> Array_sort by_score_desc xs = xs"
proof (induction xs rule: rev_induct)
  case Nil
  then show ?case by (simp add: Array_sort_def)
next
  case (snoc x xs)
  then have "desc xs" and "\<forall>y\<in>set xs. entry_score x \<le> entry_score y"
    by (auto simp: sorted_wrt_append)
  with snoc.IH show ?case
    by (simp add: Array_sort_snoc insert_sorted_last)
qed

lemma take_insert_sorted:
  "take n (insert_sorted cmp x (take n ys)) = take n (insert_sorted cmp x ys)"
proof (induction ys arbitrary: n)
  case Nil
  then show ?case by simp
next
  case (Cons y ys)
  have t: "take m (y # take m ys) = take m (y # ys)" for m
    by (cases m) simp_all
  from Cons show ?case by (cases n) (auto simp: t)
qed

lemma filter_insert_sorted:
  "desc ys \<Longrightarrow>
   filter (\<lambda>e. entry_score e = k) (insert_sorted by_score_desc x ys) =
   filter (\<lambda>e. entry_score e = k) ys @ (if entry_score x = k then [x] else [])"
proof (induction ys)
  case Nil
  then show ?case by simp
next
  case (Cons y ys)
  show ?case
  proof (cases "by_score_desc y x \<le> 0")
    case True
    with Cons show ?thesis by simp
  next
    case False
    then have "entry_score y < entry_score x" by (simp add: by_score_desc_def)
    with Cons.prems have "\<forall>z\<in>set (y # ys). entry_score z < entry_score x" by auto
    then have "filter (\<lambda>e. entry_score e = entry_score x) (y # ys) = []"
      by (auto simp: filter_empty_conv)
    with False show ?thesis by auto
  qed
qed

lemma Array_sort_stable:
  "filter (\<lambda>e. entry_score e = k) (Array_sort by_score_desc xs) = filter (\<lambda>e. entry_score e = k) xs"
proof (induction xs rule: rev_induct)
  case Nil
  then show ?case by (simp add: Array_sort_def)
next
  case (snoc x xs)
  then show ?case
    by (simp add: Array_sort_snoc filter_insert_sorted desc_Array_sort)
qed

lemma scores_Array_sort:
  "map entry_score (Array_sort by_score_desc xs) = rev (sort (map entry_score xs))"
proof -
  let ?A = "Array_sort by_score_desc xs"
  have "sorted (rev (map entry_score ?A))"
    using desc_Array_sort [of xs] by (simp add: sorted_wrt_rev sorted_wrt_map)
  moreover have "mset (rev (map entry_score ?A)) = mset (map entry_score xs)"
    using mset_Array_sort [of by_score_desc xs] by (metis mset_map mset_rev)
  ultimately have "sort (map entry_score xs) = rev (map entry_score ?A)"
    by (metis properties_for_sort)
  then show ?thesis by simp
qed

subsection \<open>The leaderboard after a run of records\<close>

lemma JSON_stringify_nonempty: "JSON_stringify es \<noteq> []"
  by (simp add: JSON_stringify_def)

lemma stored_after_write:
  "stored_leaderboard (st(''leaderboard'' \<mapsto> JSON_stringify es)) = Inr es"
  by (simp add: stored_leaderboard_def or_default_def JSON_stringify_nonempty JSON_parse_stringify)

lemma stored_missing: "st ''leaderboard'' = None \<Longrightarrow> stored_leaderboard st = Inr []"
  by (simp add: stored_leaderboard_def or_default_def JSON_parse_def)

lemma resolved_name_write:
  "resolved_name n (st(''leaderboard'' \<mapsto> t)) = resolved_name n st"
  by (simp add: resolved_name_def)

lemma added_entry_write: "added_entry (st(''leaderboard'' \<mapsto> t)) = added_entry st"
  by (rule ext) (simp add: added_entry_def resolved_name_write)

lemma updateLeaderboard_step:
  assumes "stored_leaderboard st = Inr (take 5 (Array_sort by_score_desc pre))"
  shows "updateLeaderboard n sc st =
           Inr (st(''leaderboard'' \<mapsto> JSON_stringify
                  (take 5 (Array_sort by_score_desc (pre @ [added_entry st (n, sc)])))))"
proof -
  let ?T = "take 5 (Array_sort by_score_desc pre)"
  let ?e = "added_entry st (n, sc)"
  have "desc ?T" using desc_Array_sort [of pre] by (rule sorted_wrt_take)
  then have "Array_sort by_score_desc (?T @ [?e]) = insert_sorted by_score_desc ?e ?T"
    by (simp add: Array_sort_snoc Array_sort_desc_id)
  then have "take 5 (Array_sort by_score_desc (?T @ [?e])) =
             take 5 (Array_sort by_score_desc (pre @ [?e]))"
    by (simp add: take_insert_sorted Array_sort_snoc)
  moreover have "?e = \<lparr>entry_name = resolved_name n st, entry_score = sc\<rparr>"
    by (simp add: added_entry_def)
  ultimately show ?thesis using assms
    by (simp add: updateLeaderboard_def)
qed

lemma record_calls_general:
  "stored_leaderboard st = Inr (take 5 (Array_sort by_score_desc pre)) \<Longrightarrow>
   \<exists>st'. record_calls calls st = Inr st' \<and>
     stored_leaderboard st' =
       Inr (take 5 (Array_sort by_score_desc (pre @ map (added_entry st) calls)))"
proof (induction calls arbitrary: st pre)
  case Nil
  then show ?case by simp
next
  case (Cons call calls)
  obtain n sc where call: "call = (n, sc)" by (cases call)
  let ?X = "take 5 (Array_sort by_score_desc (pre @ [added_entry st (n, sc)]))"
  let ?st = "st(''leaderboard'' \<mapsto> JSON_stringify ?X)"
  have u: "updateLeaderboard n sc st = Inr ?st"
    by (rule updateLeaderboard_step [OF Cons.prems])
  have l: "stored_leaderboard ?st = Inr ?X" by (rule stored_after_write)
  from Cons.IH [OF l] obtain st' where
    "record_calls calls ?st = Inr st'" and
    "stored_leaderboard st' =
       Inr (take 5 (Array_sort by_score_desc ((pre @ [added_entry st (n, sc)]) @ map (added_entry ?st) calls)))"
    by blast
  then show ?case using u call by (simp add: added_entry_write)
qed

text \<open>
  Claim C4. Starting from a store without a leaderboard, after any run of \<open>N\<close> calls of
  \<open>updateLeaderboard\<close> no call has thrown, and the array that is then loaded from the store
  has length \<open>min N 5\<close>, its scores do not increase from first to last, its scores are the
  five highest of all scores recorded (fewer when \<open>N < 5\<close>), and for every score the
  entries with that score are the earliest recorded ones, in the order they were recorded.
\<close>

theorem leaderboard_after_records:
  assumes "st ''leaderboard'' = None"
  shows "\<exists>st' lb. record_calls calls st = Inr st' \<and> stored_leaderboard st' = Inr lb \<and>
           length lb = min (length calls) 5 \<and>
           sorted_wrt (\<lambda>a b. entry_score b \<le> entry_score a) lb \<and>
           map entry_score lb = take 5 (rev (sort (map snd calls))) \<and>
           (\<forall>k. prefix (filter (\<lambda>e. entry_score e = k) lb)
                       (filter (\<lambda>e. entry_score e = k) (map (added_entry st) calls)))"
proof -
  let ?all = "map (added_entry st) calls"
  let ?lb = "take 5 (Array_sort by_score_desc ?all)"
  have "stored_leaderboard st = Inr (take 5 (Array_sort by_score_desc []))"
    using assms by (simp add: stored_missing Array_sort_def)
  from record_calls_general [OF this, of calls] obtain st' where
    r: "record_calls calls st = Inr st'" and l: "stored_leaderboard st' = Inr ?lb"
    by auto
  have len: "length (Array_sort by_score_desc ?all) = length calls"
    using mset_Array_sort [of by_score_desc ?all] by (metis length_map size_mset)
  have sc: "map entry_score ?all = map snd calls"
    by (simp add: added_entry_def comp_def)
  have "length ?lb = min (length calls) 5" by (simp add: len)
  moreover have "desc ?lb" using desc_Array_sort [of ?all] by (rule sorted_wrt_take)
  moreover have "map entry_score ?lb = take 5 (rev (sort (map snd calls)))"
    unfolding take_map [symmetric] scores_Array_sort sc ..
  moreover have "prefix (filter (\<lambda>e. entry_score e = k) ?lb)
                        (filter (\<lambda>e. entry_score e = k) ?all)" for k
  proof -
    have "prefix ?lb (Array_sort by_score_desc ?all)" by (rule take_is_prefix)
    then have "prefix (filter (\<lambda>e. entry_score e = k) ?lb)
                      (filter (\<lambda>e. entry_score e = k) (Array_sort by_score_desc ?all))"
      by (rule filter_mono_prefix)
    then show ?thesis by (simp add: Array_sort_stable)
  qed
  ultimately show ?thesis using r l by blast
qed

text \<open>The scenario \<open>record("Ann",50), record("Bo",90), record("Cy",10)\<close>.\<close>

theorem leaderboard_after_records_witness:
  "(Map.empty :: storage) ''leaderboard'' = None \<and>
   (\<exists>st' lb. record_calls [(Some ''Ann'', 50), (Some ''Bo'', 90), (Some ''Cy'', 10)] Map.empty = Inr st' \<and>
      stored_leaderboard st' = Inr lb \<and> length lb = 3 \<and>
      map entry_score lb = [90, 50, 10])"
proof -
  let ?calls = "[(Some ''Ann'', 50), (Some ''Bo'', 90), (Some ''Cy'', 10 :: int)]"
  have h: "(Map.empty :: storage) ''leaderboard'' = None" by simp
  from leaderboard_after_records [OF h, of ?calls] show ?thesis
    by (auto simp: sort_key_def)
qed

subsection \<open>The options of a problem\<close>

lemmas options_loop_induct = options_loop.raw_induct [rotated 1, consumes 1, case_names round]

lemma loop_eval: "options_loop cycling_env (Num 7) 0 [Num 7] = Some ([Num 7, Num 8, Num 9, Num 4], 6)"
  by code_simp

lemma options_loop_result:
  "options_loop env c k opts = Some y \<Longrightarrow> distinct opts \<Longrightarrow> c \<in> set opts \<Longrightarrow>
   length opts \<le> 4 \<Longrightarrow> length (fst y) = 4 \<and> distinct (fst y) \<and> c \<in> set (fst y)"
proof (induction env c k opts y rule: options_loop_induct)
  case (round loop env c k opts y)
  show ?case
  proof (cases "length opts < 4")
    case True
    with "round.hyps" have
      "loop env c (k + 2) (if newOption env c k \<in> set opts then opts else opts @ [newOption env c k]) = Some y"
      by simp
    then show ?thesis
      by (rule "round.IH") (use "round.prems" True in auto)
  next
    case False
    with "round.hyps" "round.prems" show ?thesis by auto
  qed
qed

lemma constant_newOption: "newOption constant_env c k = js_plus c 1"
  by (simp add: newOption_def constant_env_def frac_draw.rep_eq)

lemma constant_loop_never_returns:
  "options_loop env c k opts = Some y \<Longrightarrow> env = constant_env \<Longrightarrow>
   set opts \<subseteq> {c, js_plus c 1} \<Longrightarrow> distinct opts \<Longrightarrow> False"
proof (induction env c k opts y rule: options_loop_induct)
  case (round loop env c k opts y)
  show ?case
  proof (cases "length opts < 4")
    case True
    with "round.hyps" have
      "loop env c (k + 2) (if newOption env c k \<in> set opts then opts else opts @ [newOption env c k]) = Some y"
      by simp
    then show ?thesis
      by (rule "round.IH") (use "round.prems" in \<open>auto simp: constant_newOption\<close>)
  next
    case False
    from "round.prems" have "length opts = card (set opts)" by (simp add: distinct_card)
    also have "\<dots> \<le> card {c, js_plus c 1}" using "round.prems" by (intro card_mono) auto
    also have "\<dots> \<le> 2" by (simp add: card_insert_if)
    finally show False using False by simp
  qed
qed

lemma constant_loop_None: "options_loop constant_env c k [c] = None"
proof (cases "options_loop constant_env c k [c]")
  case None
  then show ?thesis .
next
  case (Some y)
  from constant_loop_never_returns [OF Some] show ?thesis by simp
qed

text \<open>
  Claim C6, as stated, fails: when \<open>Math.random\<close> keeps returning \<open>0\<close>, every round proposes
  \<open>correctAnswer + 1\<close>, the array never grows beyond two values and the loop never ends.
\<close>

theorem generateOptions_constant_env: "generateOptions constant_env (Num 7) initial_game = None"
  by (simp add: generateOptions_def constant_loop_None)

lemma mset_insert_random: "mset (fst (insert_random env x ys k)) = add_mset x (mset ys)"
proof (induction ys arbitrary: k)
  case Nil
  then show ?case by simp
next
  case (Cons y ys)
  obtain zs k' where r: "insert_random env x ys (k + 1) = (zs, k')"
    by (cases "insert_random env x ys (k + 1)")
  with Cons.IH [of "k + 1"] have "mset zs = add_mset x (mset ys)" by simp
  with r show ?case by simp
qed

lemma mset_foldl_insert_random:
  "mset (fst (foldl (\<lambda>(acc, j) x. insert_random env x acc j) (acc0, k) xs)) = mset acc0 + mset xs"
proof (induction xs arbitrary: acc0 k)
  case Nil
  then show ?case by simp
next
  case (Cons x xs)
  obtain acc1 k1 where i: "insert_random env x acc0 k = (acc1, k1)" by (cases "insert_random env x acc0 k")
  have "mset acc1 = add_mset x (mset acc0)"
    using mset_insert_random [of env x acc0 k] i by simp
  with Cons.IH [of acc1 k1] i show ?case by simp
qed

lemma mset_sort_random: "mset (fst (sort_random env xs k)) = mset xs"
  by (simp add: sort_random_def mset_foldl_insert_random)

text \<open>
  Claim C7. Whenever \<open>generateOptions(correctAnswer)\<close> returns, the page has exactly four
  option buttons, their values are pairwise distinct, and one of them is \<open>correctAnswer\<close>.
\<close>

theorem generateOptions_four_distinct:
  assumes "generateOptions env correctAnswer s = Some s'"
  shows "length (optionButtons s') = 4 \<and> distinct (map fst (optionButtons s')) \<and>
         correctAnswer \<in> set (map fst (optionButtons s'))"
proof -
  from assms obtain opts k where
    l: "options_loop env correctAnswer (randomCalls s) [correctAnswer] = Some (opts, k)"
    by (auto simp: generateOptions_def split: option.splits)
  obtain shuffled k' where sh: "sort_random env opts k = (shuffled, k')"
    by (cases "sort_random env opts k")
  from assms l sh have b: "optionButtons s' = map (\<lambda>option. (option, correctAnswer)) shuffled"
    by (auto simp: generateOptions_def)
  have m: "mset shuffled = mset opts" using mset_sort_random [of env opts k] sh by simp
  from options_loop_result [OF l] have r: "length opts = 4" "distinct opts" "correctAnswer \<in> set opts"
    by simp_all
  have "length shuffled = 4" using m r(1) by (metis size_mset)
  moreover have "distinct shuffled" using m r(2) by (metis mset_eq_imp_distinct_iff)
  moreover have "correctAnswer \<in> set shuffled" using m r(3) by (metis set_mset_mset)
  ultimately show ?thesis by (simp add: b comp_def)
qed

lemma shuffle_eval:
  "sort_random cycling_env [Num 7, Num 8, Num 9, Num 4] 6 = ([Num 4, Num 9, Num 8, Num 7], 9)"
  by code_simp

lemma generateOptions_eval:
  "generateOptions cycling_env (Num 7) initial_game =
     Some (initial_game\<lparr>randomCalls := 9,
              optionButtons := [(Num 4, Num 7), (Num 9, Num 7), (Num 8, Num 7), (Num 7, Num 7)]\<rparr>)"
  by (simp add: generateOptions_def initial_game_def loop_eval shuffle_eval)

theorem generateOptions_four_distinct_witness:
  "generateOptions cycling_env (Num 7) initial_game =
     Some (initial_game\<lparr>randomCalls := 9,
              optionButtons := [(Num 4, Num 7), (Num 9, Num 7), (Num 8, Num 7), (Num 7, Num 7)]\<rparr>) \<and>
   length [(Num 4, Num 7), (Num 9, Num 7), (Num 8, Num 7), (Num 7, Num 7 :: jsnum)] = 4 \<and>
   distinct [Num 4, Num 9, Num 8, Num 7] \<and> Num 7 \<in> set [Num 4, Num 9, Num 8, Num 7]"
  using generateOptions_four_distinct [OF generateOptions_eval] generateOptions_eval by simp

lemma candidates_Suc:
  "candidates env c k (Suc n) = insert (newOption env c k) (candidates env c (k + 2) n)"
proof -
  have "(\<lambda>j. newOption env c (k + 2 * j)) ` Suc ` {..<n} = (\<lambda>j. newOption env c (k + 2 + 2 * j)) ` {..<n}"
    by (simp add: image_image)
  then show ?thesis
    by (simp add: candidates_def lessThan_Suc_eq_insert_0)
qed

lemma next_options_props:
  "set (next_options env c k opts) = insert (newOption env c k) (set opts)"
  "distinct opts \<Longrightarrow> distinct (next_options env c k opts)"
  by (auto simp: next_options_def)

lemma options_loop_unfold:
  "options_loop env c k opts =
     (if length opts < 4 then options_loop env c (k + 2) (next_options env c k opts)
      else Some (opts, k))"
  by (subst options_loop.simps) (simp add: next_options_def)

lemma options_loop_returns:
  "distinct opts \<Longrightarrow> 4 \<le> card (set opts \<union> candidates env c k n) \<Longrightarrow>
   options_loop env c k opts \<noteq> None"
proof (induction n arbitrary: k opts)
  case 0
  then have "4 \<le> length opts" by (simp add: candidates_def distinct_card)
  then show ?case by (subst options_loop_unfold) simp
next
  case (Suc n)
  show ?case
  proof (cases "length opts < 4")
    case True
    have "set (next_options env c k opts) \<union> candidates env c (k + 2) n =
          set opts \<union> candidates env c k (Suc n)"
      by (simp add: next_options_props candidates_Suc)
    with Suc.prems have "options_loop env c (k + 2) (next_options env c k opts) \<noteq> None"
      by (intro Suc.IH) (simp_all add: next_options_props)
    with True show ?thesis by (subst options_loop_unfold) simp
  next
    case False
    then show ?thesis by (subst options_loop_unfold) simp
  qed
qed

lemma options_loop_enough_candidates:
  "options_loop env c k opts = Some y \<Longrightarrow> distinct opts \<Longrightarrow>
   \<exists>n. 4 \<le> card (set opts \<union> candidates env c k n)"
proof (induction env c k opts y rule: options_loop_induct)
  case (round loop env c k opts y)
  show ?case
  proof (cases "length opts < 4")
    case True
    with "round.hyps" have "loop env c (k + 2) (next_options env c k opts) = Some y"
      by (simp add: next_options_def)
    then have "\<exists>n. 4 \<le> card (set (next_options env c k opts) \<union> candidates env c (k + 2) n)"
      by (rule "round.IH") (simp add: next_options_props "round.prems")
    then obtain n where "4 \<le> card (set (next_options env c k opts) \<union> candidates env c (k + 2) n)" ..
    then have "4 \<le> card (set opts \<union> candidates env c k (Suc n))"
      by (simp add: next_options_props candidates_Suc)
    then show ?thesis ..
  next
    case False
    with "round.prems" have "4 \<le> card (set opts \<union> candidates env c k 0)"
      by (simp add: candidates_def distinct_card)
    then show ?thesis ..
  qed
qed

text \<open>
  Claim C6, amended. \<open>generateOptions(correctAnswer)\<close> returns exactly when, within some
  number of rounds, the values of \<open>newOption\<close> together with \<open>correctAnswer\<close> make up four
  different values; on every other sequence of random numbers the loop runs forever.
\<close>

theorem generateOptions_returns_iff:
  "(\<exists>s'. generateOptions env correctAnswer s = Some s') \<longleftrightarrow>
   (\<exists>n. 4 \<le> card (insert correctAnswer (candidates env correctAnswer (randomCalls s) n)))"
proof
  assume "\<exists>s'. generateOptions env correctAnswer s = Some s'"
  then obtain y where "options_loop env correctAnswer (randomCalls s) [correctAnswer] = Some y"
    by (auto simp: generateOptions_def split: option.splits)
  from options_loop_enough_candidates [OF this] show
    "\<exists>n. 4 \<le> card (insert correctAnswer (candidates env correctAnswer (randomCalls s) n))"
    by simp
next
  assume "\<exists>n. 4 \<le> card (insert correctAnswer (candidates env correctAnswer (randomCalls s) n))"
  then obtain n where
    "4 \<le> card (set [correctAnswer] \<union> candidates env correctAnswer (randomCalls s) n)" by auto
  then have "options_loop env correctAnswer (randomCalls s) [correctAnswer] \<noteq> None"
    by (intro options_loop_returns) simp_all
  then show "\<exists>s'. generateOptions env correctAnswer s = Some s'"
    by (auto simp: generateOptions_def split: option.splits prod.splits)
qed

theorem generateOptions_returns_iff_witness:
  "4 \<le> card (insert (Num 7) (candidates cycling_env (Num 7) (randomCalls initial_game) 3)) \<and>
   (\<exists>s'. generateOptions cycling_env (Num 7) initial_game = Some s')"
proof -
  have "4 \<le> card (insert (Num 7) (candidates cycling_env (Num 7) (randomCalls initial_game) 3))"
    by code_simp
  then show ?thesis
    using generateOptions_returns_iff [of cycling_env "Num 7" initial_game] by blast
qed

subsection \<open>What a new problem leaves alone\<close>

lemma generateOptions_frame:
  "generateOptions env c s = Some s' \<Longrightarrow> \<exists>r b. s' = s\<lparr>randomCalls := r, optionButtons := b\<rparr>"
  by (auto simp: generateOptions_def split: option.splits prod.splits)

lemma generateNewProblem_frame:
  assumes "generateNewProblem env s = Some s'"
  shows "\<exists>p r b q c. s' = s\<lparr>problem := p, randomCalls := r, optionButtons := b,
                           questionsStartTime := q, clockCalls := c\<rparr>"
proof -
  obtain num1 s1 where g1: "generateNumber env s = (num1, s1)" by (cases "generateNumber env s")
  obtain num2 s2 where g2: "generateNumber env s1 = (num2, s2)" by (cases "generateNumber env s1")
  have s2: "s2 = s\<lparr>randomCalls := randomCalls s + 2\<rparr>"
    using g1 g2 by (auto simp: generateNumber_def Let_def)
  from assms g1 g2 obtain c p s3 where
    o: "generateOptions env c (s2\<lparr>problem := p\<rparr>) = Some s3" and
    e: "s' = s3\<lparr>questionsStartTime := dateNow env (clockCalls s3), clockCalls := clockCalls s3 + 1\<rparr>"
    by (auto simp: generateNewProblem_def split: if_splits option.splits)
  from generateOptions_frame [OF o] obtain r b where
    "s3 = s2\<lparr>problem := p, randomCalls := r, optionButtons := b\<rparr>" by auto
  with e s2 have "s' = s\<lparr>problem := p, randomCalls := r, optionButtons := b,
                     questionsStartTime := dateNow env (clockCalls s),
                     clockCalls := clockCalls s + 1\<rparr>"
    by simp
  then show ?thesis by blast
qed

lemma problem_drawn_frame:
  "\<exists>p. problem_drawn env s = s\<lparr>randomCalls := randomCalls s + 2, problem := p\<rparr>"
proof -
  obtain num1 s1 where g1: "generateNumber env s = (num1, s1)" by (cases "generateNumber env s")
  obtain num2 s2 where g2: "generateNumber env s1 = (num2, s2)" by (cases "generateNumber env s1")
  have s2: "s2 = s\<lparr>randomCalls := randomCalls s + 2\<rparr>"
    using g1 g2 by (auto simp: generateNumber_def Let_def)
  show ?thesis
  proof (cases "currentOperation s = division")
    case True
    with g1 g2 s2 have
      "problem_drawn env s = s\<lparr>randomCalls := randomCalls s + 2, problem := (num1 * num2, division, num2)\<rparr>"
      by (simp add: problem_drawn_def)
    then show ?thesis ..
  next
    case False
    with g1 g2 s2 have
      "problem_drawn env s = s\<lparr>randomCalls := randomCalls s + 2, problem := (num1, currentOperation s, num2)\<rparr>"
      by (simp add: problem_drawn_def)
    then show ?thesis ..
  qed
qed

lemma next_problem_frame:
  "\<exists>p r b q c. state_after (next_problem env t) =
     t\<lparr>problem := p, randomCalls := r, optionButtons := b, questionsStartTime := q, clockCalls := c\<rparr>"
proof (cases "generateNewProblem env t")
  case None
  obtain p where "problem_drawn env t = t\<lparr>randomCalls := randomCalls t + 2, problem := p\<rparr>"
    using problem_drawn_frame by blast
  with None have "state_after (next_problem env t) =
     t\<lparr>problem := p, randomCalls := randomCalls t + 2, optionButtons := optionButtons t,
       questionsStartTime := questionsStartTime t, clockCalls := clockCalls t\<rparr>"
    by (simp add: next_problem_def state_after_def)
  then show ?thesis by blast
next
  case (Some s')
  from generateNewProblem_frame [OF Some] Some show ?thesis
    by (simp add: next_problem_def state_after_def)
qed

lemma next_problem_keeps:
  "session (state_after (next_problem env t)) = session t \<and>
   currentOperation (state_after (next_problem env t)) = currentOperation t \<and>
   currentDifficulty (state_after (next_problem env t)) = currentDifficulty t \<and>
   accuracy (state_after (next_problem env t)) = accuracy t \<and>
   notifications (state_after (next_problem env t)) = notifications t \<and>
   intervals (state_after (next_problem env t)) = intervals t \<and>
   p1Score (state_after (next_problem env t)) = p1Score t \<and>
   p2Score (state_after (next_problem env t)) = p2Score t \<and>
   currentPlayer (state_after (next_problem env t)) = currentPlayer t \<and>
   isMultiplayerRound (state_after (next_problem env t)) = isMultiplayerRound t"
proof -
  obtain p r b q c where "state_after (next_problem env t) =
     t\<lparr>problem := p, randomCalls := r, optionButtons := b, questionsStartTime := q, clockCalls := c\<rparr>"
    using next_problem_frame by blast
  then show ?thesis by (simp add: session_def)
qed

lemma next_problem_never_throws: "next_problem env t \<noteq> Throws e s'"
  by (simp add: next_problem_def split: option.splits)

text \<open>When the call returns: when the option loop of the problem it draws ends.\<close>

lemma generateNewProblem_by_parts:
  "generateNewProblem env s =
     (case generateOptions env (drawn_answer env s) (problem_drawn env s) of
        None \<Rightarrow> None
      | Some s3 \<Rightarrow>
          Some (s3\<lparr>questionsStartTime := dateNow env (clockCalls s3),
                   clockCalls := clockCalls s3 + 1\<rparr>))"
  by (simp add: generateNewProblem_def drawn_answer_def problem_drawn_def split: prod.splits)

lemma next_problem_returns_iff:
  "(\<exists>s'. next_problem env s = Returns s') \<longleftrightarrow>
   (\<exists>n. 4 \<le> card (insert (drawn_answer env s)
                    (candidates env (drawn_answer env s) (randomCalls s + 2) n)))"
proof -
  let ?c = "drawn_answer env s"
  obtain p where "problem_drawn env s = s\<lparr>randomCalls := randomCalls s + 2, problem := p\<rparr>"
    using problem_drawn_frame by blast
  then have k: "randomCalls (problem_drawn env s) = randomCalls s + 2" by simp
  have "(\<exists>s'. next_problem env s = Returns s') \<longleftrightarrow>
        options_loop env ?c (randomCalls s + 2) [?c] \<noteq> None"
    by (auto simp: next_problem_def generateNewProblem_by_parts generateOptions_def k
             split: option.splits prod.splits)
  also have "\<dots> \<longleftrightarrow> (\<exists>n. 4 \<le> card (insert ?c (candidates env ?c (randomCalls s + 2) n)))"
  proof
    assume "options_loop env ?c (randomCalls s + 2) [?c] \<noteq> None"
    then obtain y where "options_loop env ?c (randomCalls s + 2) [?c] = Some y" by auto
    from options_loop_enough_candidates [OF this] show
      "\<exists>n. 4 \<le> card (insert ?c (candidates env ?c (randomCalls s + 2) n))" by simp
  next
    assume "\<exists>n. 4 \<le> card (insert ?c (candidates env ?c (randomCalls s + 2) n))"
    then obtain n where "4 \<le> card (set [?c] \<union> candidates env ?c (randomCalls s + 2) n)" by auto
    then show "options_loop env ?c (randomCalls s + 2) [?c] \<noteq> None"
      by (intro options_loop_returns) simp_all
  qed
  finally show ?thesis .
qed

subsection \<open>Answers\<close>

lemma foldl_award_frame:
  assumes "\<And>st a. f st a = st \<or> (\<exists>x y. f st a = awardAchievement x y st)"
  shows "\<exists>n. foldl f s xs = s\<lparr>notifications := n\<rparr>"
proof (induction xs arbitrary: s)
  case Nil
  have "s = s\<lparr>notifications := notifications s\<rparr>" by simp
  then show ?case by (metis foldl_Nil)
next
  case (Cons a xs)
  have "\<exists>m. f s a = s\<lparr>notifications := m\<rparr>"
  proof (rule disjE [OF assms [of s a]])
    assume "f s a = s"
    then have "f s a = s\<lparr>notifications := notifications s\<rparr>" by simp
    then show ?thesis ..
  next
    assume "\<exists>x y. f s a = awardAchievement x y s"
    then show ?thesis by (auto simp: awardAchievement_def)
  qed
  then obtain m where m: "f s a = s\<lparr>notifications := m\<rparr>" ..
  from Cons [of "s\<lparr>notifications := m\<rparr>"] m show ?case by auto
qed

lemma checkAchievements_frame: "\<exists>n. checkAchievements s = s\<lparr>notifications := n\<rparr>"
proof -
  let ?f = "\<lambda>st achievement.
              if streak st = requirement achievement
                then awardAchievement (streak_name achievement) (streak_description achievement) st
              else st"
  let ?g = "\<lambda>st achievement.
              if \<not> awarded achievement \<and> totalAttempts st = required_questions achievement
                 \<and> strict_eq (times100 (js_div (score st) (totalAttempts st)))
                      (Num (of_int (required_accuracy achievement)))
                then awardAchievement (accuracy_name achievement) (accuracy_description achievement) st
              else st"
  have "\<exists>n. foldl ?f s (streaks s) = s\<lparr>notifications := n\<rparr>"
    by (rule foldl_award_frame) auto
  then obtain n where n: "foldl ?f s (streaks s) = s\<lparr>notifications := n\<rparr>" ..
  have "\<exists>m. foldl ?g (s\<lparr>notifications := n\<rparr>) (accuracy s) = s\<lparr>notifications := n, notifications := m\<rparr>"
    by (rule foldl_award_frame) auto
  then obtain m where
    "foldl ?g (s\<lparr>notifications := n\<rparr>) (accuracy s) = s\<lparr>notifications := n, notifications := m\<rparr>" ..
  with n have "checkAchievements s = s\<lparr>notifications := m\<rparr>"
    by (simp add: checkAchievements_def Let_def)
  then show ?thesis ..
qed

lemma checkAnswer_unfold:
  "checkAnswer env selected correct s =
     next_problem env
       (updateReportData (checkAchievements (updateStats (answered env selected correct s))))"
  by (simp add: checkAnswer_def answered_def Let_def)

lemma session_shown:
  "session (updateReportData (checkAchievements (updateStats t))) = session t"
proof -
  obtain n where "checkAchievements (updateStats t) = (updateStats t)\<lparr>notifications := n\<rparr>"
    using checkAchievements_frame by blast
  then show ?thesis by (simp add: session_def updateReportData_def updateStats_def)
qed

lemma session_answered:
  "session (answered env selected correct s) =
     (if strict_eq selected correct then score s + 1 else score s,
      if strict_eq selected correct then streak s + 1 else 0,
      totalAttempts s + 1,
      totalTime s + of_int (dateNow env (clockCalls s) - questionsStartTime s) / 1000)"
  by (simp add: session_def answered_def Let_def)

lemma session_checkAnswer:
  "session (state_after (checkAnswer env selected correct s)) =
     (if strict_eq selected correct then score s + 1 else score s,
      if strict_eq selected correct then streak s + 1 else 0,
      totalAttempts s + 1,
      totalTime s + of_int (dateNow env (clockCalls s) - questionsStartTime s) / 1000)"
  by (simp only: checkAnswer_unfold next_problem_keeps session_shown session_answered)

text \<open>The next problem is drawn from the operation, the difficulty and the random numbers alone.\<close>

lemma drawn_answer_cong:
  "randomCalls t = randomCalls s \<Longrightarrow> currentOperation t = currentOperation s \<Longrightarrow>
   currentDifficulty t = currentDifficulty s \<Longrightarrow> drawn_answer env t = drawn_answer env s"
  by (simp add: drawn_answer_def generateNumber_def calculateAnswer_def Let_def)

lemma draw_shown:
  "randomCalls (updateReportData (checkAchievements (updateStats t))) = randomCalls t \<and>
   currentOperation (updateReportData (checkAchievements (updateStats t))) = currentOperation t \<and>
   currentDifficulty (updateReportData (checkAchievements (updateStats t))) = currentDifficulty t"
proof -
  obtain n where "checkAchievements (updateStats t) = (updateStats t)\<lparr>notifications := n\<rparr>"
    using checkAchievements_frame by blast
  then show ?thesis by (simp add: updateReportData_def updateStats_def)
qed

lemma draw_answered:
  "randomCalls (answered env selected correct s) = randomCalls s \<and>
   currentOperation (answered env selected correct s) = currentOperation s \<and>
   currentDifficulty (answered env selected correct s) = currentDifficulty s"
  by (simp add: answered_def Let_def)

lemma checkAnswer_returns_iff:
  "(\<exists>s'. checkAnswer env selected correct s = Returns s') \<longleftrightarrow>
   (\<exists>n. 4 \<le> card (insert (drawn_answer env s)
                    (candidates env (drawn_answer env s) (randomCalls s + 2) n)))"
proof -
  let ?t = "updateReportData (checkAchievements (updateStats (answered env selected correct s)))"
  have r: "randomCalls ?t = randomCalls s" "currentOperation ?t = currentOperation s"
    "currentDifficulty ?t = currentDifficulty s"
    by (simp_all only: draw_shown draw_answered)
  have d: "drawn_answer env ?t = drawn_answer env s"
    by (rule drawn_answer_cong) (rule r)+
  show ?thesis
    unfolding checkAnswer_unfold next_problem_returns_iff [of env ?t] d r(1) ..
qed


lemma checkAnswer_never_throws: "checkAnswer env selected correct s \<noteq> Throws e s'"
  by (simp add: checkAnswer_unfold next_problem_never_throws)

lemma calls_made_all:
  "checkAnswers env calls s = Returns s' \<Longrightarrow> calls_made env calls s = calls"
proof (induction calls arbitrary: s)
  case Nil
  then show ?case by simp
next
  case (Cons call calls)
  obtain selected correct where c: "call = (selected, correct)" by (cases call)
  from Cons.prems c obtain s1 where
    s1: "checkAnswer env selected correct s = Returns s1" and r: "checkAnswers env calls s1 = Returns s'"
    by (auto split: ending.splits)
  from Cons.IH [OF r] s1 c show ?case by simp
qed

lemma checkAnswers_counters:
  "totalAttempts (state_after (checkAnswers env calls s)) =
     totalAttempts s + int (length (calls_made env calls s)) \<and>
   score (state_after (checkAnswers env calls s)) =
     score s + int (length (filter is_correct (calls_made env calls s))) \<and>
   streak (state_after (checkAnswers env calls s)) =
     (if list_all is_correct (calls_made env calls s)
        then streak s + int (length (calls_made env calls s))
      else int (length (takeWhile is_correct (rev (calls_made env calls s)))))"
proof (induction calls arbitrary: s)
  case Nil
  then show ?case by (simp add: state_after_def)
next
  case (Cons call calls)
  obtain selected correct where c: "call = (selected, correct)" by (cases call)
  let ?r = "checkAnswer env selected correct s"
  from session_checkAnswer [of env selected correct s] have
    f: "totalAttempts (state_after ?r) = totalAttempts s + 1"
       "score (state_after ?r) = (if is_correct call then score s + 1 else score s)"
       "streak (state_after ?r) = (if is_correct call then streak s + 1 else 0)"
    by (simp_all add: session_def is_correct_def c)
  show ?case
  proof (cases ?r)
    case (Returns s1)
    let ?made = "calls_made env calls s1"
    from Returns c have m: "calls_made env (call # calls) s = call # ?made"
      and e: "checkAnswers env (call # calls) s = checkAnswers env calls s1"
      by simp_all
    from Returns f have f1: "totalAttempts s1 = totalAttempts s + 1"
       "score s1 = (if is_correct call then score s + 1 else score s)"
       "streak s1 = (if is_correct call then streak s + 1 else 0)"
      by (simp_all add: state_after_def)
    note ih = Cons.IH [of s1]
    show ?thesis
    proof (cases "list_all is_correct ?made")
      case True
      then have "takeWhile is_correct (rev ?made @ [call]) = rev ?made @ takeWhile is_correct [call]"
        by (intro takeWhile_append2) (simp add: list_all_iff)
      with True ih f1 show ?thesis unfolding m e by auto
    next
      case False
      then obtain x where "x \<in> set (rev ?made)" "\<not> is_correct x" by (auto simp: list_all_iff)
      then have "takeWhile is_correct (rev ?made @ [call]) = takeWhile is_correct (rev ?made)"
        by (rule takeWhile_append1)
      with False ih f1 show ?thesis unfolding m e by auto
    qed
  next
    case (Throws x s1)
    with c have "calls_made env (call # calls) s = [call]"
      and "state_after (checkAnswers env (call # calls) s) = state_after ?r"
      by (simp_all add: state_after_def)
    with f show ?thesis by simp
  next
    case (Hangs s1)
    with c have "calls_made env (call # calls) s = [call]"
      and "state_after (checkAnswers env (call # calls) s) = state_after ?r"
      by (simp_all add: state_after_def)
    with f show ?thesis by simp
  qed
qed


text \<open>
  Claim C5. Every call of \<open>checkAnswer\<close> adds one to \<open>totalAttempts\<close> and the elapsed
  seconds to \<open>totalTime\<close>, whatever the answer; it adds one to \<open>score\<close> and to \<open>streak\<close> when
  \<open>selected === correct\<close>, and sets \<open>streak\<close> to \<open>0\<close> otherwise. It has done so when it calls
  \<open>generateNewProblem\<close>, so this holds whether or not that call returns; it returns exactly
  when the random numbers give the next problem four distinct options. In a run of calls
  every call is made unless an earlier one hangs. After the calls made from a state with a
  non-negative streak, \<open>streak\<close> is non-negative and is the number of correct answers since
  the last incorrect one (the streak before the run plus the number of calls when none was
  incorrect); \<open>totalAttempts\<close> has grown by the number of calls and \<open>score\<close> by the number of
  correct ones.
\<close>

theorem checkAnswer_counts:
  "totalAttempts (state_after (checkAnswer env selected correct s)) = totalAttempts s + 1 \<and>
   totalTime (state_after (checkAnswer env selected correct s)) =
     totalTime s + of_int (dateNow env (clockCalls s) - questionsStartTime s) / 1000 \<and>
   score (state_after (checkAnswer env selected correct s)) =
     (if strict_eq selected correct then score s + 1 else score s) \<and>
   streak (state_after (checkAnswer env selected correct s)) =
     (if strict_eq selected correct then streak s + 1 else 0) \<and>
   ((\<exists>s'. checkAnswer env selected correct s = Returns s') \<longleftrightarrow>
    (\<exists>n. 4 \<le> card (insert (drawn_answer env s)
                     (candidates env (drawn_answer env s) (randomCalls s + 2) n)))) \<and>
   ((\<exists>s'. checkAnswers env calls s = Returns s') \<longrightarrow> calls_made env calls s = calls) \<and>
   totalAttempts (state_after (checkAnswers env calls s)) =
     totalAttempts s + int (length (calls_made env calls s)) \<and>
   score (state_after (checkAnswers env calls s)) =
     score s + int (length (filter is_correct (calls_made env calls s))) \<and>
   (0 \<le> streak s \<longrightarrow>
      0 \<le> streak (state_after (checkAnswers env calls s)) \<and>
      streak (state_after (checkAnswers env calls s)) =
        (if list_all is_correct (calls_made env calls s)
           then streak s + int (length (calls_made env calls s))
         else int (length (takeWhile is_correct (rev (calls_made env calls s))))))"
proof -
  have one: "session (state_after (checkAnswer env selected correct s)) =
     (if strict_eq selected correct then score s + 1 else score s,
      if strict_eq selected correct then streak s + 1 else 0,
      totalAttempts s + 1,
      totalTime s + of_int (dateNow env (clockCalls s) - questionsStartTime s) / 1000)"
    by (rule session_checkAnswer)
  have made: "(\<exists>s'. checkAnswers env calls s = Returns s') \<longrightarrow> calls_made env calls s = calls"
    using calls_made_all by blast
  note run = checkAnswers_counters [of env calls s]
  have nonneg: "0 \<le> streak s \<longrightarrow> 0 \<le> streak (state_after (checkAnswers env calls s))"
    using run by auto
  from one have
    "totalAttempts (state_after (checkAnswer env selected correct s)) = totalAttempts s + 1"
    "totalTime (state_after (checkAnswer env selected correct s)) =
       totalTime s + of_int (dateNow env (clockCalls s) - questionsStartTime s) / 1000"
    "score (state_after (checkAnswer env selected correct s)) =
       (if strict_eq selected correct then score s + 1 else score s)"
    "streak (state_after (checkAnswer env selected correct s)) =
       (if strict_eq selected correct then streak s + 1 else 0)"
    by (simp_all add: session_def)
  with made run nonneg checkAnswer_returns_iff [of env selected correct s] show ?thesis
    by blast
qed

lemma four_answers_return:
  "(case checkAnswers cycling_env [(Num 7, Num 7), (Num 3, Num 7), (Num 5, Num 5), (Num 4, Num 4)]
           initial_game of Returns s' \<Rightarrow> True | Throws e s' \<Rightarrow> False | Hangs s' \<Rightarrow> False)"
  by code_simp

theorem checkAnswer_counts_witness:
  "0 \<le> streak initial_game \<and>
   (case checkAnswers cycling_env [(Num 7, Num 7), (Num 3, Num 7), (Num 5, Num 5), (Num 4, Num 4)]
           initial_game of
      Returns s' \<Rightarrow> streak s' = 2 \<and> totalAttempts s' = 4 \<and> score s' = 3
    | Throws e s' \<Rightarrow> False
    | Hangs s' \<Rightarrow> False)"
proof -
  let ?calls = "[(Num 7, Num 7), (Num 3, Num 7), (Num 5, Num 5), (Num 4, Num 4)]"
  have z: "0 \<le> streak initial_game" "streak initial_game = 0" "totalAttempts initial_game = 0"
    "score initial_game = 0"
    by (simp_all add: initial_game_def)
  have c: "\<not> list_all is_correct ?calls" "takeWhile is_correct (rev ?calls) = [(Num 4, Num 4), (Num 5, Num 5)]"
    "filter is_correct ?calls = [(Num 7, Num 7), (Num 5, Num 5), (Num 4, Num 4)]"
    by (simp_all add: is_correct_def strict_eq_def)
  from four_answers_return obtain s' where
    r: "checkAnswers cycling_env ?calls initial_game = Returns s'"
    by (auto split: ending.splits)
  note t = checkAnswer_counts [where env = cycling_env and s = initial_game and calls = ?calls
      and selected = "Num 7" and correct = "Num 7"]
  from t r have m: "calls_made cycling_env ?calls initial_game = ?calls" by blast
  from t have
    "totalAttempts (state_after (checkAnswers cycling_env ?calls initial_game)) =
       totalAttempts initial_game + int (length (calls_made cycling_env ?calls initial_game))"
    "score (state_after (checkAnswers cycling_env ?calls initial_game)) =
       score initial_game + int (length (filter is_correct (calls_made cycling_env ?calls initial_game)))"
    "streak (state_after (checkAnswers cycling_env ?calls initial_game)) =
        (if list_all is_correct (calls_made cycling_env ?calls initial_game)
           then streak initial_game + int (length (calls_made cycling_env ?calls initial_game))
         else int (length (takeWhile is_correct (rev (calls_made cycling_env ?calls initial_game)))))"
    using z(1) by blast+
  then have "streak s' = 2 \<and> totalAttempts s' = 4 \<and> score s' = 3"
    unfolding m r using z c by (simp add: state_after_def)
  with z(1) r show ?thesis by simp
qed

subsection \<open>Reset and the mode toggles\<close>

lemma resetGame_unfold:
  "resetGame env s = next_problem env (updateReportData (updateStats (reset_variables s)))"
  by (simp add: resetGame_def reset_variables_def Let_def)

lemma resetGame_never_throws: "resetGame env s \<noteq> Throws e s'"
  by (simp add: resetGame_unfold next_problem_never_throws)

lemma resetGame_result:
  "session (state_after (resetGame env s)) = (0, 0, 0, 0) \<and>
   p1Score (state_after (resetGame env s)) = 0 \<and>
   p2Score (state_after (resetGame env s)) = 0 \<and>
   currentPlayer (state_after (resetGame env s)) = 1 \<and>
   \<not> isMultiplayerRound (state_after (resetGame env s)) \<and>
   intervals (state_after (resetGame env s)) =
     (if truthy (multiplayerInterval s)
        then filter (\<lambda>t. Some (fst t) \<noteq> multiplayerInterval s) (intervals s)
      else intervals s) \<and>
   currentOperation (state_after (resetGame env s)) = currentOperation s \<and>
   currentDifficulty (state_after (resetGame env s)) = currentDifficulty s \<and>
   accuracy (state_after (resetGame env s)) = accuracy s \<and>
   notifications (state_after (resetGame env s)) = notifications s \<and>
   localStorage (state_after (resetGame env s)) ''leaderboard'' = localStorage s ''leaderboard''"
proof -
  let ?t = "updateReportData (updateStats (reset_variables s))"
  obtain p r b q c where
    "state_after (next_problem env ?t) =
       ?t\<lparr>problem := p, randomCalls := r, optionButtons := b,
          questionsStartTime := q, clockCalls := c\<rparr>"
    using next_problem_frame by blast
  then have "state_after (resetGame env s) =
       ?t\<lparr>problem := p, randomCalls := r, optionButtons := b,
          questionsStartTime := q, clockCalls := c\<rparr>"
    by (simp only: resetGame_unfold)
  then show ?thesis
    by (auto simp: reset_variables_def Let_def session_def updateReportData_def updateStats_def
        clearInterval_def truthy_def split: option.splits)
qed

lemma toggleTimer_result:
  "session (toggleTimer s) =
     (if timerActive s then session s else (0, streak s, totalAttempts s, totalTime s)) \<and>
   currentOperation (toggleTimer s) = currentOperation s \<and>
   currentDifficulty (toggleTimer s) = currentDifficulty s \<and>
   accuracy (toggleTimer s) = accuracy s \<and>
   localStorage (toggleTimer s) = localStorage s"
  by (simp add: toggleTimer_def Let_def setInterval_def clearInterval_def session_def
      split: option.splits)

lemma startPlayerTurn_result:
  "session (startPlayerTurn s) = session s \<and>
   currentOperation (startPlayerTurn s) = currentOperation s \<and>
   currentDifficulty (startPlayerTurn s) = currentDifficulty s \<and>
   accuracy (startPlayerTurn s) = accuracy s \<and>
   localStorage (startPlayerTurn s) = localStorage s"
  by (simp add: startPlayerTurn_def setInterval_def session_def)

lemma multiplayerCallback_result:
  "session (multiplayerCallback s) = session s \<and>
   currentOperation (multiplayerCallback s) = currentOperation s \<and>
   currentDifficulty (multiplayerCallback s) = currentDifficulty s \<and>
   accuracy (multiplayerCallback s) = accuracy s \<and>
   localStorage (multiplayerCallback s) = localStorage s"
  by (simp add: multiplayerCallback_def Let_def handleTurnEnd_def clearInterval_def session_def
      split: option.splits)

lemma startMultiplayerRound_result:
  "session (state_after (startMultiplayerRound env s)) = (0, 0, 0, 0) \<and>
   currentOperation (state_after (startMultiplayerRound env s)) = currentOperation s \<and>
   currentDifficulty (state_after (startMultiplayerRound env s)) = currentDifficulty s \<and>
   accuracy (state_after (startMultiplayerRound env s)) = accuracy s \<and>
   localStorage (state_after (startMultiplayerRound env s)) ''leaderboard'' =
     localStorage s ''leaderboard''"
proof (cases "resetGame env s")
  case (Returns u)
  then have "state_after (startMultiplayerRound env s) =
               (state_after (resetGame env s))\<lparr>currentPlayer := 1, p1Score := 0, p2Score := 0\<rparr>"
    by (simp add: startMultiplayerRound_def state_after_def)
  with resetGame_result [of env s] show ?thesis by (simp add: session_def)
next
  case (Throws e u)
  then have "state_after (startMultiplayerRound env s) = state_after (resetGame env s)"
    by (simp add: startMultiplayerRound_def state_after_def)
  with resetGame_result [of env s] show ?thesis by simp
next
  case (Hangs u)
  then have "state_after (startMultiplayerRound env s) = state_after (resetGame env s)"
    by (simp add: startMultiplayerRound_def state_after_def)
  with resetGame_result [of env s] show ?thesis by simp
qed

lemma startMultiplayerRound_never_throws: "startMultiplayerRound env s \<noteq> Throws e s'"
  using resetGame_never_throws [of env s]
  by (auto simp: startMultiplayerRound_def split: ending.splits)

lemma toggleMultiplayer_result:
  "session (state_after (toggleMultiplayer env s)) = (0, 0, 0, 0) \<and>
   currentOperation (state_after (toggleMultiplayer env s)) = currentOperation s \<and>
   currentDifficulty (state_after (toggleMultiplayer env s)) = currentDifficulty s \<and>
   accuracy (state_after (toggleMultiplayer env s)) = accuracy s \<and>
   localStorage (state_after (toggleMultiplayer env s)) ''leaderboard'' =
     localStorage s ''leaderboard''"
proof (cases "isMultiplayer s")
  case True
  let ?s1 = "s\<lparr>isMultiplayer := False\<rparr>"
  let ?t = "if truthy (multiplayerInterval ?s1) then clearInterval (multiplayerInterval ?s1) ?s1
            else ?s1"
  from True have "toggleMultiplayer env s = resetGame env ?t"
    by (simp add: toggleMultiplayer_def Let_def)
  moreover have "currentOperation ?t = currentOperation s" "currentDifficulty ?t = currentDifficulty s"
    "accuracy ?t = accuracy s" "localStorage ?t = localStorage s"
    by (simp_all add: clearInterval_def split: option.splits)
  ultimately show ?thesis using resetGame_result [of env ?t] by simp
next
  case False
  then have "toggleMultiplayer env s = startMultiplayerRound env (s\<lparr>isMultiplayer := True\<rparr>)"
    by (simp add: toggleMultiplayer_def Let_def)
  with startMultiplayerRound_result [of env "s\<lparr>isMultiplayer := True\<rparr>"] show ?thesis by simp
qed

lemma toggleMultiplayer_never_throws: "toggleMultiplayer env s \<noteq> Throws e s'"
  by (simp add: toggleMultiplayer_def Let_def resetGame_never_throws
      startMultiplayerRound_never_throws)

lemma announcementTimeout_result:
  "session (state_after (announcementTimeout env s)) = (0, 0, 0, 0) \<and>
   currentOperation (state_after (announcementTimeout env s)) = currentOperation s \<and>
   currentDifficulty (state_after (announcementTimeout env s)) = currentDifficulty s \<and>
   accuracy (state_after (announcementTimeout env s)) = accuracy s \<and>
   localStorage (state_after (announcementTimeout env s)) ''leaderboard'' =
     localStorage s ''leaderboard''"
  using resetGame_result [of env "s\<lparr>isMultiplayer := False\<rparr>"]
  by (simp add: announcementTimeout_def)

text \<open>A leaderboard item as the game wrote it can be read again.\<close>

lemma as_written_iff:
  "as_written st \<longleftrightarrow>
     st ''leaderboard'' = None \<or> st ''leaderboard'' = Some [] \<or>
     (\<exists>lb. st ''leaderboard'' = Some (JSON_stringify lb))"
proof (cases "st ''leaderboard''")
  case None
  then show ?thesis by (simp add: as_written_def)
next
  case (Some t)
  show ?thesis
  proof (cases "JSON_parse t")
    case (Inl e)
    with Some show ?thesis by (auto simp: as_written_def JSON_parse_stringify)
  next
    case (Inr lb)
    with Some show ?thesis by (auto simp: as_written_def JSON_parse_stringify)
  qed
qed

lemma as_written_parses:
  assumes "as_written st"
  shows "\<exists>lb. stored_leaderboard st = Inr lb"
proof -
  have e: "JSON_parse ''[]'' = Inr []"
    using JSON_parse_stringify [of "[]"] by (simp add: JSON_stringify_def)
  from assms consider "st ''leaderboard'' = None" | "st ''leaderboard'' = Some []"
    | lb where "st ''leaderboard'' = Some (JSON_stringify lb)"
    unfolding as_written_iff by auto
  then show ?thesis
  proof cases
    case 1
    with e show ?thesis by (simp add: stored_leaderboard_def or_default_def)
  next
    case 2
    with e show ?thesis by (simp add: stored_leaderboard_def or_default_def)
  next
    case 3
    then show ?thesis
      by (simp add: stored_leaderboard_def or_default_def JSON_stringify_nonempty
          JSON_parse_stringify)
  qed
qed

lemma updateLeaderboard_as_written:
  "updateLeaderboard playerName score_arg st = Inr st' \<Longrightarrow> as_written st'"
  unfolding as_written_iff by (auto simp: updateLeaderboard_def split: sum.splits)

lemma timerCallback_result:
  "(timeRemaining s \<le> 1 \<longrightarrow> as_written (localStorage s) \<longrightarrow>
      (\<forall>e s'. timerCallback env s \<noteq> Throws e s')) \<and>
   (1 < timeRemaining s \<longrightarrow> (\<forall>e s'. timerCallback env s \<noteq> Throws e s')) \<and>
   ((\<forall>e s'. timerCallback env s \<noteq> Throws e s') \<longrightarrow>
      session (state_after (timerCallback env s)) =
        (if timeRemaining s \<le> 1 then (0, 0, 0, 0) else session s)) \<and>
   (\<forall>e s'. timerCallback env s = Throws e s' \<longrightarrow> session s' = session s) \<and>
   currentOperation (state_after (timerCallback env s)) = currentOperation s \<and>
   currentDifficulty (state_after (timerCallback env s)) = currentDifficulty s \<and>
   accuracy (state_after (timerCallback env s)) = accuracy s \<and>
   (as_written (localStorage s) \<longrightarrow> as_written (localStorage (state_after (timerCallback env s))))"
proof (cases "timeRemaining s \<le> 1")
  case False
  then have "timerCallback env s = Returns (s\<lparr>timeRemaining := timeRemaining s - 1\<rparr>)"
    by (simp add: timerCallback_def Let_def)
  with False show ?thesis by (simp add: session_def state_after_def)
next
  case True
  let ?s2 = "clearInterval (timerInterval s) (s\<lparr>timeRemaining := timeRemaining s - 1\<rparr>)"
  have s2: "session ?s2 = session s" "currentOperation ?s2 = currentOperation s"
    "currentDifficulty ?s2 = currentDifficulty s" "accuracy ?s2 = accuracy s"
    "localStorage ?s2 = localStorage s"
    by (simp_all add: clearInterval_def session_def split: option.splits)
  show ?thesis
  proof (cases "showTimerEndMessage ?s2")
    case (Inl e)
    with True have t: "timerCallback env s = Throws e ?s2"
      by (simp add: timerCallback_def Let_def)
    from Inl s2 have "stored_leaderboard (localStorage s) = Inl e"
      by (auto simp: showTimerEndMessage_def updateLeaderboard_def split: sum.splits)
    with as_written_parses [of "localStorage s"] have "\<not> as_written (localStorage s)" by auto
    with t True s2 show ?thesis by (simp add: state_after_def)
  next
    case (Inr s3)
    then obtain st where s3: "s3 = ?s2\<lparr>localStorage := st\<rparr>" and w: "as_written st"
      by (auto simp: showTimerEndMessage_def split: sum.splits dest: updateLeaderboard_as_written)
    from True Inr have t: "timerCallback env s = resetGame env s3"
      by (simp add: timerCallback_def Let_def)
    from w s3 resetGame_result [of env s3] have
      "as_written (localStorage (state_after (resetGame env s3)))"
      by (simp add: as_written_def)
    with resetGame_result [of env s3] resetGame_never_throws [of env s3] s3 s2 True t
    show ?thesis by simp
  qed
qed

lemma selection_answered:
  "currentOperation (answered env selected correct s) = currentOperation s \<and>
   currentDifficulty (answered env selected correct s) = currentDifficulty s \<and>
   accuracy (answered env selected correct s) = accuracy s \<and>
   localStorage (answered env selected correct s) = localStorage s"
  by (simp add: answered_def Let_def)

lemma selection_shown:
  "currentOperation (updateReportData (checkAchievements (updateStats t))) = currentOperation t \<and>
   currentDifficulty (updateReportData (checkAchievements (updateStats t))) = currentDifficulty t \<and>
   accuracy (updateReportData (checkAchievements (updateStats t))) = accuracy t \<and>
   localStorage (updateReportData (checkAchievements (updateStats t))) ''leaderboard'' =
     localStorage t ''leaderboard''"
proof -
  obtain n where "checkAchievements (updateStats t) = (updateStats t)\<lparr>notifications := n\<rparr>"
    using checkAchievements_frame by blast
  then show ?thesis by (simp add: updateReportData_def updateStats_def)
qed

lemma next_problem_storage:
  "localStorage (state_after (next_problem env t)) = localStorage t"
proof -
  obtain p r b q c where "state_after (next_problem env t) =
     t\<lparr>problem := p, randomCalls := r, optionButtons := b, questionsStartTime := q, clockCalls := c\<rparr>"
    using next_problem_frame by blast
  then show ?thesis by simp
qed

lemma selection_checkAnswer:
  "currentOperation (state_after (checkAnswer env selected correct s)) = currentOperation s \<and>
   currentDifficulty (state_after (checkAnswer env selected correct s)) = currentDifficulty s \<and>
   accuracy (state_after (checkAnswer env selected correct s)) = accuracy s \<and>
   localStorage (state_after (checkAnswer env selected correct s)) ''leaderboard'' =
     localStorage s ''leaderboard''"
  by (simp only: checkAnswer_unfold next_problem_keeps next_problem_storage selection_shown
      selection_answered simp_thms)

lemma handle_throws:
  assumes "handle env ev s = Throws e s'"
  shows "ev = TimerCallback \<and> timeRemaining s \<le> 1 \<and> \<not> as_written (localStorage s) \<and>
         session s' = session s"
proof (cases ev)
  case TimerCallback
  with assms timerCallback_result [of s env] show ?thesis
    by (metis handle.simps(5) not_le_imp_less)
qed (use assms in \<open>simp_all add: setOperation_def setDifficulty_def next_problem_never_throws
       checkAnswer_never_throws toggleMultiplayer_never_throws announcementTimeout_def
       resetGame_never_throws\<close>)

text \<open>No handler of the page sets the flag \<open>awarded\<close> of an achievement.\<close>

lemma awarded_never_changes:
  "accuracy (state_after (handle env ev s)) = accuracy s"
proof (cases ev)
  case (SetOperation op)
  then show ?thesis by (simp add: setOperation_def next_problem_keeps)
next
  case (SetDifficulty d)
  then show ?thesis by (simp add: setDifficulty_def next_problem_keeps)
next
  case (CheckAnswer selected correct)
  then show ?thesis by (simp add: selection_checkAnswer)
next
  case ToggleTimer
  then show ?thesis by (simp add: toggleTimer_result state_after_def)
next
  case TimerCallback
  then show ?thesis by (simp add: timerCallback_result)
next
  case ToggleMultiplayer
  then show ?thesis by (simp add: toggleMultiplayer_result)
next
  case CountdownDone
  then show ?thesis by (simp add: startPlayerTurn_result state_after_def)
next
  case MultiplayerCallback
  then show ?thesis by (simp add: multiplayerCallback_result state_after_def)
next
  case AnnouncementTimeout
  then show ?thesis by (simp add: announcementTimeout_result)
next
  case ToggleMusic
  then show ?thesis by (simp add: toggleMusic_def state_after_def)
qed

text \<open>A leaderboard item as the game wrote it stays so under every handler.\<close>

lemma as_written_leaderboard:
  "localStorage t ''leaderboard'' = localStorage s ''leaderboard'' \<Longrightarrow>
   as_written (localStorage s) \<Longrightarrow> as_written (localStorage t)"
  by (simp add: as_written_def)

lemma as_written_kept:
  assumes "as_written (localStorage s)"
  shows "as_written (localStorage (state_after (handle env ev s)))"
proof (cases ev)
  case (SetOperation op)
  with assms show ?thesis by (simp add: setOperation_def next_problem_storage)
next
  case (SetDifficulty d)
  with assms show ?thesis by (simp add: setDifficulty_def next_problem_storage)
next
  case (CheckAnswer selected correct)
  with assms show ?thesis
    by (simp add: as_written_leaderboard [OF _ assms] selection_checkAnswer)
next
  case ToggleTimer
  with assms show ?thesis by (simp add: toggleTimer_result state_after_def)
next
  case TimerCallback
  with assms timerCallback_result [of s env] show ?thesis by simp
next
  case ToggleMultiplayer
  with assms show ?thesis
    by (simp add: as_written_leaderboard [OF _ assms] toggleMultiplayer_result)
next
  case CountdownDone
  with assms show ?thesis by (simp add: startPlayerTurn_result state_after_def)
next
  case MultiplayerCallback
  with assms show ?thesis by (simp add: multiplayerCallback_result state_after_def)
next
  case AnnouncementTimeout
  with assms show ?thesis
    by (simp add: as_written_leaderboard [OF _ assms] announcementTimeout_result)
next
  case ToggleMusic
  with assms show ?thesis by (simp add: toggleMusic_def state_after_def)
qed

text \<open>
  Claim C3, as stated, fails: enabling the timer zeroes only \<open>score\<close>, and disabling it
  zeroes nothing.
\<close>

theorem toggleTimer_keeps_counters:
  "session (toggleTimer played) = (0, 3, 4, 9) \<and>
   session (toggleTimer (toggleTimer played)) = (0, 3, 4, 9)"
  by (simp add: toggleTimer_def Let_def setInterval_def clearInterval_def session_def
      played_def initial_game_def)

text \<open>
  Claim C3, amended. Take any handler of the game page, run in any state; when it is the
  expiry of the single-player timer, let the stored leaderboard be missing, empty or a text
  the game wrote. Then the handler does not throw, and it leaves the stored leaderboard
  such a text. Entering and leaving multiplayer mode, the timeout after a multiplayer round
  and the expiry of the single-player timer set \<open>score\<close>, \<open>streak\<close>, \<open>totalAttempts\<close> and
  \<open>totalTime\<close> to zero, and have done so before they ask for the next problem, so also
  when that call never returns; enabling the single-player timer zeroes \<open>score\<close> and keeps
  the other three; disabling it keeps all four; \<open>checkAnswer\<close> changes them as claim C5
  says; every other handler keeps all four.
\<close>

theorem session_transitions:
  assumes "ev = TimerCallback \<longrightarrow> timeRemaining s \<le> 1 \<longrightarrow> as_written (localStorage s)"
  shows "(\<forall>e s'. handle env ev s \<noteq> Throws e s') \<and>
     (as_written (localStorage s) \<longrightarrow>
        as_written (localStorage (state_after (handle env ev s)))) \<and>
     session (state_after (handle env ev s)) =
       (case ev of
          ToggleMultiplayer \<Rightarrow> (0, 0, 0, 0)
        | AnnouncementTimeout \<Rightarrow> (0, 0, 0, 0)
        | TimerCallback \<Rightarrow> if timeRemaining s \<le> 1 then (0, 0, 0, 0) else session s
        | ToggleTimer \<Rightarrow>
            if timerActive s then session s else (0, streak s, totalAttempts s, totalTime s)
        | CheckAnswer selected correct \<Rightarrow>
            (if strict_eq selected correct then score s + 1 else score s,
             if strict_eq selected correct then streak s + 1 else 0,
             totalAttempts s + 1,
             totalTime s + of_int (dateNow env (clockCalls s) - questionsStartTime s) / 1000)
        | _ \<Rightarrow> session s)"
proof -
  have nothrow: "\<forall>e s'. handle env ev s \<noteq> Throws e s'"
  proof (intro allI notI)
    fix e s'
    assume "handle env ev s = Throws e s'"
    from handle_throws [OF this] assms show False by simp
  qed
  have kept: "as_written (localStorage s) \<longrightarrow>
        as_written (localStorage (state_after (handle env ev s)))"
    by (rule impI) (rule as_written_kept)
  have "session (state_after (handle env ev s)) =
       (case ev of
          ToggleMultiplayer \<Rightarrow> (0, 0, 0, 0)
        | AnnouncementTimeout \<Rightarrow> (0, 0, 0, 0)
        | TimerCallback \<Rightarrow> if timeRemaining s \<le> 1 then (0, 0, 0, 0) else session s
        | ToggleTimer \<Rightarrow>
            if timerActive s then session s else (0, streak s, totalAttempts s, totalTime s)
        | CheckAnswer selected correct \<Rightarrow>
            (if strict_eq selected correct then score s + 1 else score s,
             if strict_eq selected correct then streak s + 1 else 0,
             totalAttempts s + 1,
             totalTime s + of_int (dateNow env (clockCalls s) - questionsStartTime s) / 1000)
        | _ \<Rightarrow> session s)"
  proof (cases ev)
    case (SetOperation op)
    have "session (s\<lparr>currentOperation := op\<rparr>) = session s" by (simp add: session_def)
    with SetOperation show ?thesis by (simp add: setOperation_def next_problem_keeps)
  next
    case (SetDifficulty d)
    have "session (s\<lparr>currentDifficulty := d\<rparr>) = session s" by (simp add: session_def)
    with SetDifficulty show ?thesis by (simp add: setDifficulty_def next_problem_keeps)
  next
    case (CheckAnswer selected correct)
    then show ?thesis by (simp add: session_checkAnswer)
  next
    case ToggleTimer
    then show ?thesis by (simp add: toggleTimer_result state_after_def)
  next
    case TimerCallback
    with nothrow have "\<forall>e s'. timerCallback env s \<noteq> Throws e s'" by simp
    with timerCallback_result [of s env] TimerCallback show ?thesis by simp
  next
    case ToggleMultiplayer
    then show ?thesis by (simp add: toggleMultiplayer_result)
  next
    case CountdownDone
    then show ?thesis by (simp add: startPlayerTurn_result state_after_def)
  next
    case MultiplayerCallback
    then show ?thesis by (simp add: multiplayerCallback_result state_after_def)
  next
    case AnnouncementTimeout
    then show ?thesis by (simp add: announcementTimeout_result)
  next
    case ToggleMusic
    then show ?thesis by (simp add: toggleMusic_def session_def state_after_def)
  qed
  with nothrow kept show ?thesis by (intro conjI)
qed



lemma toggleMultiplayer_returns:
  "(case handle cycling_env ToggleMultiplayer played of
      Returns s' \<Rightarrow> True | Throws e s' \<Rightarrow> False | Hangs s' \<Rightarrow> False)"
  by code_simp

lemma timer_expiry_returns:
  "as_written
     (localStorage
        ((toggleTimer played)
           \<lparr>timeRemaining := 1,
            localStorage :=
              Map.empty(''leaderboard'' \<mapsto>
                JSON_stringify [\<lparr>entry_name = ''Ann'', entry_score = 5\<rparr>])\<rparr>)) \<and>
   (case handle cycling_env TimerCallback
           ((toggleTimer played)
              \<lparr>timeRemaining := 1,
               localStorage :=
                 Map.empty(''leaderboard'' \<mapsto>
                   JSON_stringify [\<lparr>entry_name = ''Ann'', entry_score = 5\<rparr>])\<rparr>) of
      Returns s' \<Rightarrow> True | Throws e s' \<Rightarrow> False | Hangs s' \<Rightarrow> False)"
  by code_simp

theorem session_transitions_witness:
  "(case handle cycling_env ToggleMultiplayer played of
      Returns s' \<Rightarrow> session s' = (0, 0, 0, 0) | Throws e s' \<Rightarrow> False | Hangs s' \<Rightarrow> False) \<and>
   (case handle cycling_env TimerCallback
           ((toggleTimer played)
              \<lparr>timeRemaining := 1,
               localStorage :=
                 Map.empty(''leaderboard'' \<mapsto>
                   JSON_stringify [\<lparr>entry_name = ''Ann'', entry_score = 5\<rparr>])\<rparr>) of
      Returns s' \<Rightarrow> session s' = (0, 0, 0, 0) | Throws e s' \<Rightarrow> False | Hangs s' \<Rightarrow> False) \<and>
   (case handle cycling_env ToggleTimer played of
      Returns s' \<Rightarrow> session s' = (0, 3, 4, 9) | Throws e s' \<Rightarrow> False | Hangs s' \<Rightarrow> False)"
proof -
  let ?timed = "(toggleTimer played)
              \<lparr>timeRemaining := 1,
               localStorage :=
                 Map.empty(''leaderboard'' \<mapsto>
                   JSON_stringify [\<lparr>entry_name = ''Ann'', entry_score = 5\<rparr>])\<rparr>"
  have t: "\<not> timerActive played" "streak played = 3" "totalAttempts played = 4" "totalTime played = 9"
    by (simp_all add: played_def initial_game_def)
  have w: "as_written (localStorage ?timed)" "timeRemaining ?timed \<le> 1"
    using timer_expiry_returns by simp_all
  from toggleMultiplayer_returns obtain s1 where
    r1: "handle cycling_env ToggleMultiplayer played = Returns s1"
    by (auto split: ending.splits)
  from timer_expiry_returns obtain s2 where
    r2: "handle cycling_env TimerCallback ?timed = Returns s2"
    by (auto split: ending.splits)
  from session_transitions [where env = cycling_env and ev = ToggleMultiplayer and s = played]
  have "session (state_after (handle cycling_env ToggleMultiplayer played)) = (0, 0, 0, 0)"
    by simp
  then have a: "session s1 = (0, 0, 0, 0)" unfolding r1 by (simp add: state_after_def)
  from session_transitions [where env = cycling_env and ev = TimerCallback and s = ?timed] w
  have "session (state_after (handle cycling_env TimerCallback ?timed)) = (0, 0, 0, 0)"
    by simp
  then have b: "session s2 = (0, 0, 0, 0)" unfolding r2 by (simp add: state_after_def)
  from session_transitions [where env = cycling_env and ev = ToggleTimer and s = played] t
  have c: "session (toggleTimer played) = (0, 3, 4, 9)"
    by (simp add: state_after_def)
  from a b c show ?thesis unfolding r1 r2 by simp
qed



subsection \<open>Division problems\<close>

lemma draw_value_range: "0 \<le> draw_value d \<and> draw_value d < 1"
  using draw_value [of d] by simp

lemma generateNumber_range:
  "range_min (difficultyRanges (currentDifficulty s)) \<le> fst (generateNumber env s) \<and>
   fst (generateNumber env s) \<le> range_max (difficultyRanges (currentDifficulty s))"
proof -
  let ?r = "difficultyRanges (currentDifficulty s)"
  let ?n = "range_max ?r - range_min ?r + 1"
  let ?d = "draw_value (mathRandom env (randomCalls s))"
  have n: "0 < ?n" by (cases "currentDifficulty s") simp_all
  have d: "0 \<le> ?d" "?d < 1" using draw_value_range by simp_all
  have "0 \<le> ?d * of_int ?n" using d n by simp
  then have lo: "0 \<le> \<lfloor>?d * of_int ?n\<rfloor>" by simp
  have "?d * of_int ?n < 1 * of_int ?n"
    using d n by (intro mult_strict_right_mono) simp_all
  then have "?d * of_int ?n < of_int ?n" by (simp only: mult_1)
  then have "\<lfloor>?d * of_int ?n\<rfloor> < ?n" by (simp only: floor_less_iff)
  with lo show ?thesis by (simp add: generateNumber_def Let_def)
qed

lemma range_min_positive: "1 \<le> range_min (difficultyRanges d)"
  by (cases d) simp_all

lemma generateNumber_state:
  "snd (generateNumber env s) = s\<lparr>randomCalls := randomCalls s + 1\<rparr>"
  by (simp add: generateNumber_def Let_def)

lemma generateOptions_buttons:
  "generateOptions env c s = Some s' \<Longrightarrow>
   list_all (\<lambda>b. snd b = c) (optionButtons s') \<and> problem s' = problem s"
  by (auto simp: generateOptions_def list_all_iff split: option.splits prod.splits)

text \<open>
  Claim C8. For every difficulty, a problem generated while the operation is division has
  a second operand that is not zero and divides the first: the first operand is the
  product of two numbers drawn from the range of the difficulty, the second operand is one
  of them, and the answer handed to the option buttons is \<open>operand1 / operand2\<close>, an
  integer.
\<close>

theorem division_problem:
  assumes "currentOperation s = division"
  shows "case generateNewProblem env s of
           None \<Rightarrow> True
         | Some s' \<Rightarrow>
             (case problem s' of
                (operand1, op, operand2) \<Rightarrow>
                  op = division \<and> operand2 \<noteq> 0 \<and> operand1 mod operand2 = 0 \<and>
                  in_range (currentDifficulty s) operand2 \<and>
                  in_range (currentDifficulty s) (operand1 div operand2) \<and>
                  js_div operand1 operand2 = Num (of_int (operand1 div operand2)) \<and>
                  list_all (\<lambda>b. snd b = js_div operand1 operand2) (optionButtons s'))"
proof (cases "generateNewProblem env s")
  case None
  then show ?thesis by simp
next
  case (Some s')
  obtain num1 s1 where g1: "generateNumber env s = (num1, s1)" by (cases "generateNumber env s")
  obtain num2 s2 where g2: "generateNumber env s1 = (num2, s2)" by (cases "generateNumber env s1")
  have s1: "s1 = s\<lparr>randomCalls := randomCalls s + 1\<rparr>"
    using generateNumber_state [of env s] g1 by simp
  have s2: "s2 = s1\<lparr>randomCalls := randomCalls s1 + 1\<rparr>"
    using generateNumber_state [of env s1] g2 by simp
  have r1: "in_range (currentDifficulty s) num1"
    using generateNumber_range [of s env] g1 by (simp add: in_range_def)
  have r2: "in_range (currentDifficulty s) num2"
    using generateNumber_range [of s1 env] g2 s1 by (simp add: in_range_def)
  from r2 range_min_positive [of "currentDifficulty s"] have pos: "0 < num2"
    by (simp add: in_range_def)
  let ?c = "js_div (num1 * num2) num2"
  from Some g1 g2 assms s1 s2 obtain s3 where
    o: "generateOptions env ?c (s2\<lparr>problem := (num1 * num2, division, num2)\<rparr>) = Some s3" and
    e: "s' = s3\<lparr>questionsStartTime := dateNow env (clockCalls s3), clockCalls := clockCalls s3 + 1\<rparr>"
    by (auto simp: generateNewProblem_def split: option.splits)
  from generateOptions_buttons [OF o] e have
    b: "list_all (\<lambda>b. snd b = ?c) (optionButtons s')" and p: "problem s' = (num1 * num2, division, num2)"
    by simp_all
  have "?c = Num (of_int num1)" using pos by (simp add: js_div_def)
  with b p r1 r2 pos show ?thesis using Some by (simp add: js_div_def)
qed

lemma division_problem_eval:
  "(case generateNewProblem cycling_env (initial_game\<lparr>currentOperation := division\<rparr>) of
      None \<Rightarrow> False
    | Some s' \<Rightarrow> problem s' = (2, division, 2) \<and>
        optionButtons s' = [(Num (- 2), Num 1), (Num 3, Num 1), (Num 1, Num 1), (Num (- 3), Num 1)])"
  by code_simp

theorem division_problem_witness:
  "currentOperation (initial_game\<lparr>currentOperation := division\<rparr>) = division \<and>
   (case generateNewProblem cycling_env (initial_game\<lparr>currentOperation := division\<rparr>) of
      None \<Rightarrow> False
    | Some s' \<Rightarrow> problem s' = (2, division, 2) \<and> (2::int) mod 2 = 0 \<and>
        js_div 2 2 = Num 1 \<and> list_all (\<lambda>b. snd b = js_div 2 2) (optionButtons s'))"
proof -
  let ?s = "initial_game\<lparr>currentOperation := division\<rparr>"
  have h: "currentOperation ?s = division" by simp
  show ?thesis
  proof (cases "generateNewProblem cycling_env ?s")
    case None
    with division_problem_eval show ?thesis by simp
  next
    case (Some s')
    with division_problem_eval have p: "problem s' = (2, division, 2)" by simp
    have "case Some s' of
            None \<Rightarrow> True
          | Some s' \<Rightarrow>
              (case problem s' of
                 (operand1, op, operand2) \<Rightarrow>
                   op = division \<and> operand2 \<noteq> 0 \<and> operand1 mod operand2 = 0 \<and>
                   in_range (currentDifficulty ?s) operand2 \<and>
                   in_range (currentDifficulty ?s) (operand1 div operand2) \<and>
                   js_div operand1 operand2 = Num (of_int (operand1 div operand2)) \<and>
                   list_all (\<lambda>b. snd b = js_div operand1 operand2) (optionButtons s'))"
      using division_problem [OF h, of cycling_env] unfolding Some .
    then have l: "list_all (\<lambda>b. snd b = js_div 2 2) (optionButtons s')"
      unfolding option.case p prod.case by blast
    have j: "js_div 2 2 = Num 1" by (simp add: js_div_def)
    have m: "(2::int) mod 2 = 0" by simp
    show ?thesis unfolding Some option.case
      by (intro conjI) (rule h, rule p, rule m, rule j, rule l)
  qed
qed

subsection \<open>Statistics, a malformed leaderboard, achievements\<close>

lemma report_constants:
  "accuracyPercentage s =
     (if 0 < totalAttempts s
        then Num (of_int \<lfloor>(of_int (score s) :: rat) / of_int (totalAttempts s) * 100 + 1 / 2\<rfloor>)
      else Num 0) \<and>
   avgTime s =
     (if 0 < totalAttempts s then Num (of_int \<lfloor>totalTime s / of_int (totalAttempts s) + 1 / 2\<rfloor>)
      else Num 0)"
  by (simp add: accuracyPercentage_def avgTime_def Math_round_def times100_def js_div_def
      js_div_rat_def)

lemma updateStats_accuracy:
  "accuracyShown (updateStats s) =
     (if totalAttempts s = 0
        then (if score s = 0 then NaN else if 0 < score s then Infinity else NegInfinity)
      else Num (of_int \<lfloor>(of_int (score s) :: rat) / of_int (totalAttempts s) * 100 + 1 / 2\<rfloor>))"
  by (simp add: updateStats_def Math_round_def times100_def js_div_def)

text \<open>
  Claim C9 against the code. The two constants of \<open>updateReportData\<close> are as the claim says
  (\<open>report_constants\<close>), but \<open>updateStats\<close> computes the same accuracy without the guard:
  after \<open>resetGame\<close>, here through the multiplayer toggle on a page just loaded,
  \<open>totalAttempts\<close> is \<open>0\<close>, the page shows \<open>NaN\<close> for the accuracy, and the report items in
  \<open>localStorage\<close> are \<open>0%\<close> and \<open>0s\<close>.
\<close>

theorem accuracy_shown_after_reset:
  "map_option (\<lambda>s'. (totalAttempts s', accuracyShown s', localStorage s' ''accuracy'',
                       localStorage s' ''avgTime''))
     (returned (toggleMultiplayer cycling_env initial_game)) =
   Some (0, NaN, Some ''0%'', Some ''0s'')"
  by code_simp

text \<open>
  Claim C2, as stated, fails: with a leaderboard item that is not JSON, \<open>displayLeaderboard\<close>
  and \<open>updateLeaderboard\<close> throw, where an empty leaderboard gives five placeholder rows.
\<close>

theorem malformed_leaderboard_is_not_empty:
  "displayLeaderboard True broken_store = Inl SyntaxError \<and>
   updateLeaderboard (Some ''Ann'') 5 broken_store = Inl SyntaxError \<and>
   displayLeaderboard True Map.empty =
     Inr (Some [EmptyRow 1, EmptyRow 2, EmptyRow 3, EmptyRow 4, EmptyRow 5])"
proof -
  have b: "stored_leaderboard broken_store = Inl SyntaxError"
    by (simp add: stored_leaderboard_def broken_store_def or_default_def JSON_parse_def)
  have "displayLeaderboard True Map.empty =
          Inr (Some [EmptyRow 1, EmptyRow 2, EmptyRow 3, EmptyRow 4, EmptyRow 5])"
    by code_simp
  with b show ?thesis by (simp add: displayLeaderboard_def updateLeaderboard_def)
qed

text \<open>
  Claim C2, amended. When \<open>JSON.parse\<close> rejects the stored leaderboard, the \<open>SyntaxError\<close>
  leaves \<open>updateLeaderboard\<close> and \<open>displayLeaderboard\<close> uncaught, and with them
  \<open>showTimerEndMessage\<close> and the timer callback at expiry, which has then stopped the
  timer but neither recorded the score nor reset the game. Only a missing item, or an
  empty one, is read as an empty leaderboard.
\<close>

theorem malformed_leaderboard_propagates:
  "(stored_leaderboard st = Inl e \<longrightarrow>
      updateLeaderboard playerName score_arg st = Inl e \<and>
      displayLeaderboard has_container st = Inl e \<and>
      (localStorage s = st \<longrightarrow>
         showTimerEndMessage s = Inl e \<and>
         (timeRemaining s \<le> 1 \<longrightarrow>
            timerCallback env s =
              Throws e (clearInterval (timerInterval s) (s\<lparr>timeRemaining := timeRemaining s - 1\<rparr>))))) \<and>
   (st ''leaderboard'' = None \<or> st ''leaderboard'' = Some [] \<longrightarrow> stored_leaderboard st = Inr [])"
proof (intro conjI impI)
  assume e: "stored_leaderboard st = Inl e"
  then show "updateLeaderboard playerName score_arg st = Inl e"
    by (simp add: updateLeaderboard_def)
  from e show "displayLeaderboard has_container st = Inl e"
    by (simp add: displayLeaderboard_def)
  assume l: "localStorage s = st"
  with e show m: "showTimerEndMessage s = Inl e"
    by (simp add: showTimerEndMessage_def updateLeaderboard_def)
  assume t: "timeRemaining s \<le> 1"
  let ?s2 = "clearInterval (timerInterval s) (s\<lparr>timeRemaining := timeRemaining s - 1\<rparr>)"
  have "localStorage ?s2 = st" using l by (simp add: clearInterval_def split: option.splits)
  with e have "showTimerEndMessage ?s2 = Inl e"
    by (simp add: showTimerEndMessage_def updateLeaderboard_def)
  with t show "timerCallback env s = Throws e ?s2"
    by (simp add: timerCallback_def Let_def)
next
  assume "st ''leaderboard'' = None \<or> st ''leaderboard'' = Some []"
  then show "stored_leaderboard st = Inr []"
    by (auto simp: stored_leaderboard_def or_default_def JSON_parse_def)
qed

theorem malformed_leaderboard_propagates_witness:
  "stored_leaderboard broken_store = Inl SyntaxError \<and>
   updateLeaderboard (Some ''Ann'') 5 broken_store = Inl SyntaxError \<and>
   displayLeaderboard True broken_store = Inl SyntaxError \<and>
   (case timerCallback cycling_env
           ((toggleTimer played)\<lparr>timeRemaining := 1, localStorage := broken_store\<rparr>) of
      Returns s' \<Rightarrow> False
    | Throws e s' \<Rightarrow> e = SyntaxError \<and> session s' = (0, 3, 4, 9) \<and> intervals s' = []
    | Hangs s' \<Rightarrow> False)"
proof -
  let ?s = "(toggleTimer played)\<lparr>timeRemaining := 1, localStorage := broken_store\<rparr>"
  have b: "stored_leaderboard broken_store = Inl SyntaxError"
    by (simp add: stored_leaderboard_def broken_store_def or_default_def JSON_parse_def)
  have f: "localStorage ?s = broken_store" "timeRemaining ?s \<le> 1" by simp_all
  have g: "session (clearInterval (timerInterval ?s) (?s\<lparr>timeRemaining := timeRemaining ?s - 1\<rparr>))
             = (0, 3, 4, 9) \<and>
           intervals (clearInterval (timerInterval ?s) (?s\<lparr>timeRemaining := timeRemaining ?s - 1\<rparr>)) = []"
    by (simp add: toggleTimer_def Let_def setInterval_def clearInterval_def session_def
        played_def initial_game_def)
  from malformed_leaderboard_propagates
    [where st = broken_store and e = SyntaxError and s = ?s and env = cycling_env
       and playerName = "Some ''Ann''" and score_arg = 5 and has_container = True] b f g
  show ?thesis by simp
qed

text \<open>
  Claim C1 against the code. Fifteen correct answers, the multiplayer toggle pressed twice
  (each press runs \<open>resetGame\<close>), fifteen correct answers again: the notification of the
  accuracy achievement has been appended twice, and its \<open>awarded\<close> property is still
  false.
\<close>

theorem accuracy_achievement_fires_twice:
  "map_option (\<lambda>s'. (times_shown ''Sharp Shooter!'' s', map awarded (accuracy s')))
     (returned
        (run cycling_env
           (replicate 15 (CheckAnswer (Num 7) (Num 7)) @ [ToggleMultiplayer, ToggleMultiplayer] @
            replicate 15 (CheckAnswer (Num 7) (Num 7)))
           initial_game)) = Some (2, [False])"
  by code_simp

end
